theory Spec2Isabelle
  imports Complex_Main
begin

section \<open>Python values used by \<open>transcribe.py\<close>\<close>

text \<open>
  A Python \<open>str\<close> is a sequence of Unicode code points; the sentence terminators tested
  by the command include three code points beyond ASCII. A character is therefore modelled
  as its code point, and a string as a list of code points. \<open>ascii\<close> embeds an ASCII
  literal.
\<close>

type_synonym uchar = nat
type_synonym ustring = "uchar list"

definition ascii :: "string \<Rightarrow> ustring" where
  "ascii s = map of_char s"

definition newline :: uchar where
  "newline = 10"

text \<open>
  The exceptions the modelled code can raise, and how a run of the command ends:
  it returns, it leaves through \<open>sys.exit(message)\<close>, or an exception escapes.
  \<open>sys.exit\<close> with a string writes the string to the error stream and ends the process
  with status 1; an uncaught exception ends it with status 1 as well.
\<close>

datatype pyerr = IndexError | AttributeError | UnsupportedFormatError

datatype outcome = Returned | Exited ustring | Raised pyerr

fun exit_status :: "outcome \<Rightarrow> nat" where
  "exit_status Returned = 0"
| "exit_status (Exited m) = 1"
| "exit_status (Raised e) = 1"

text \<open>
  Truth value of an optional string argument: \<open>None\<close> and the empty string are false
  (\<open>if not filename\<close>, \<open>if output\<close>, \<open>if format or output\<close>).
\<close>

fun truthy :: "ustring option \<Rightarrow> bool" where
  "truthy None = False"
| "truthy (Some s) = (s \<noteq> [])"

text \<open>
  \<open>str.isspace\<close> for one code point: the white space of the Unicode character database,
  which is what \<open>str.strip()\<close> without argument removes from both ends.
\<close>

definition isspace :: "uchar \<Rightarrow> bool" where
  "isspace c \<longleftrightarrow>
     (0x09 \<le> c \<and> c \<le> 0x0D) \<or> (0x1C \<le> c \<and> c \<le> 0x20) \<or> c = 0x85 \<or> c = 0xA0 \<or>
     c = 0x1680 \<or> (0x2000 \<le> c \<and> c \<le> 0x200A) \<or> c = 0x2028 \<or> c = 0x2029 \<or>
     c = 0x202F \<or> c = 0x205F \<or> c = 0x3000"

definition strip :: "ustring \<Rightarrow> ustring" where
  "strip s = rev (dropWhile isspace (rev (dropWhile isspace s)))"

text \<open>\<open>xs[-1]\<close> on a string or a list: the last element, \<open>IndexError\<close> when it is empty.\<close>

fun index_last :: "'a list \<Rightarrow> pyerr + 'a" where
  "index_last [] = Inl IndexError"
| "index_last (x # xs) = Inr (last (x # xs))"

text \<open>\<open>s.split(sep)\<close> for a separator of one character; the result is never empty.\<close>

fun split_acc :: "uchar \<Rightarrow> ustring \<Rightarrow> ustring \<Rightarrow> ustring list" where
  "split_acc sep cur [] = [rev cur]"
| "split_acc sep cur (c # cs) =
     (if c = sep then rev cur # split_acc sep [] cs else split_acc sep (c # cur) cs)"

definition split :: "ustring \<Rightarrow> uchar \<Rightarrow> ustring list" where
  "split s sep = split_acc sep [] s"

text \<open>\<open>" ".join(xs)\<close>.\<close>

fun join_space :: "ustring list \<Rightarrow> ustring" where
  "join_space [] = []"
| "join_space [x] = x"
| "join_space (x # y # ys) = x @ of_char CHR '' '' # join_space (y # ys)"

text \<open>\<open>os.path.join(a, b)\<close> on a POSIX system.\<close>

definition path_join :: "ustring \<Rightarrow> ustring \<Rightarrow> ustring" where
  "path_join a b =
     (if b \<noteq> [] \<and> hd b = of_char CHR ''/'' then b
      else if a = [] \<or> last a = of_char CHR ''/'' then a @ b
      else a @ of_char CHR ''/'' # b)"

text \<open>
  \<open>shlex.quote(s)\<close>: the empty string becomes two quotes; a string of letters, digits and
  \<open>_ @ % + = : , . / -\<close> only is returned as it is; any other string is wrapped in single
  quotes, each single quote inside written as \<open>'"'"'\<close>.
\<close>

definition safe_char :: "uchar \<Rightarrow> bool" where
  "safe_char c \<longleftrightarrow>
     (of_char CHR ''a'' \<le> c \<and> c \<le> of_char CHR ''z'') \<or>
     (of_char CHR ''A'' \<le> c \<and> c \<le> of_char CHR ''Z'') \<or>
     (of_char CHR ''0'' \<le> c \<and> c \<le> of_char CHR ''9'') \<or>
     c \<in> set (ascii ''_@%+=:,./-'')"

definition quote :: "ustring \<Rightarrow> ustring" where
  "quote s =
     (if s = [] then ascii [CHR 0x27, CHR 0x27]
      else if list_all safe_char s then s
      else ascii [CHR 0x27] @
           concat (map (\<lambda>c. if c = of_char (CHR 0x27)
                              then ascii [CHR 0x27, CHR 0x22, CHR 0x27, CHR 0x22, CHR 0x27]
                              else [c]) s) @
           ascii [CHR 0x27])"

section \<open>The transcription result and the state of a run\<close>

text \<open>
  The dictionary returned by \<open>model.transcribe\<close>: its segments in order, each with its text
  and its start and end time in seconds, and the language.
\<close>

record segment =
  seg_text :: ustring
  seg_start :: real
  seg_end :: real

record tresult =
  segments :: "segment list"
  language :: "ustring option"

text \<open>
  What a run can observe and change: the files and directories by path, the standard output
  as the sequence of lines written to it, one per \<open>print\<close> call, and the calls made to the
  libraries the command builds on. A file holds bytes, or the serialization of a result in
  a format; the standard output likewise.
\<close>

datatype call =
    LoadModel ustring
  | GetCmdCwd
  | PathExists ustring
  | Transcribe ustring "ustring option"

datatype document = Directory | Bytes ustring | Rendering ustring tresult

datatype out_item = Line ustring | Rendered ustring tresult

record state =
  files :: "ustring \<rightharpoonup> document"
  stdout :: "out_item list"
  calls :: "call list"

definition print :: "ustring \<Rightarrow> state \<Rightarrow> state" where
  "print s st = st\<lparr>stdout := stdout st @ [Line s]\<rparr>"

definition called :: "call \<Rightarrow> state \<Rightarrow> state" where
  "called c st = st\<lparr>calls := calls st @ [c]\<rparr>"

definition path_exists :: "state \<Rightarrow> ustring \<Rightarrow> bool" where
  "path_exists st p \<longleftrightarrow> files st p \<noteq> None"

text \<open>
  The libraries: \<open>mlhub.pkg.get_cmd_cwd()\<close> and the \<open>transcribe\<close> method of the loaded
  model, given the quoted path and the language.
\<close>

record env =
  cmd_cwd :: ustring
  transcribe :: "ustring \<Rightarrow> ustring option \<Rightarrow> tresult"

section \<open>Console output, one sentence per line (lines 106 to 122)\<close>

definition terminators :: "uchar list" where
  "terminators = [of_char CHR ''.'', of_char CHR ''?'', of_char CHR ''!'', 0x3002, 0xFF1F, 0xFF01]"

text \<open>
  The \<open>for\<close> loop over \<open>result["segments"]\<close>: the iterator reads the list of the result
  object at the next index until the index reaches its length. The result object is passed
  along and returned, so that a change to it would show.
\<close>

function console_loop ::
  "nat \<Rightarrow> tresult \<Rightarrow> ustring list \<Rightarrow> state \<Rightarrow> outcome \<times> tresult \<times> ustring list \<times> state" where
  "console_loop i result text_buffer st =
     (if i < length (segments result) then
        (let segment = segments result ! i;
             text_buffer = text_buffer @ [strip (seg_text segment)]
         in case index_last (strip (seg_text segment)) of
              Inl e \<Rightarrow> (Raised e, result, text_buffer, st)
            | Inr c \<Rightarrow>
                if c \<in> set terminators
                then console_loop (Suc i) result [] (print (join_space text_buffer) st)
                else console_loop (Suc i) result text_buffer st)
      else (Returned, result, text_buffer, st))"
  by pat_completeness auto
termination
  by (relation "measure (\<lambda>(i, result, text_buffer, st). length (segments result) - i)") auto

declare console_loop.simps [simp del]

definition console_output :: "tresult \<Rightarrow> state \<Rightarrow> outcome \<times> tresult \<times> state" where
  "console_output result st =
     (case console_loop 0 result [] st of
        (Returned, result', text_buffer, st') \<Rightarrow>
          if text_buffer \<noteq> [] then (Returned, result', print (join_space text_buffer) st')
          else (Returned, result', st')
      | (oc, result', text_buffer, st') \<Rightarrow> (oc, result', st'))"

section \<open>Choice of the output (lines 101 to 104)\<close>

text \<open>
  The class \<open>OutputHandler\<close> of module \<open>output_handler\<close> is constructed with the format
  and the destination and then writes the result. It is a parameter of the model: it gets
  the format, the destination, the result object and the state, and gives back how it
  ended, the result object and the new state.
\<close>

type_synonym handler =
  "ustring \<Rightarrow> ustring option \<Rightarrow> tresult \<Rightarrow> state \<Rightarrow> outcome \<times> tresult \<times> state"

text \<open>
  \<open>format if format else output.split(".")[-1]\<close>; calling \<open>split\<close> on \<open>None\<close> would raise
  \<open>AttributeError\<close>.
\<close>

definition extension :: "ustring option \<Rightarrow> pyerr + ustring" where
  "extension output =
     (case output of
        None \<Rightarrow> Inl AttributeError
      | Some out \<Rightarrow> index_last (split out (of_char CHR ''.'')))"

definition output_format :: "ustring option \<Rightarrow> ustring option \<Rightarrow> pyerr + ustring" where
  "output_format format output =
     (case format of
        None \<Rightarrow> extension output
      | Some f \<Rightarrow> if f \<noteq> [] then Inr f else extension output)"

text \<open>
  Lines 101 to 122. \<open>output_path\<close> is the variable bound at line 91, which happens exactly
  when \<open>output\<close> is true; it is read only then.
\<close>

definition render ::
  "handler \<Rightarrow> ustring option \<Rightarrow> ustring option \<Rightarrow> ustring option \<Rightarrow> tresult \<Rightarrow> state
     \<Rightarrow> outcome \<times> tresult \<times> state" where
  "render output_handler format output output_path result st =
     (if truthy format \<or> truthy output then
        (case output_format format output of
           Inl e \<Rightarrow> (Raised e, result, st)
         | Inr fmt \<Rightarrow>
             output_handler fmt (if truthy output then output_path else None) result st)
      else console_output result st)"

section \<open>The command (lines 48 to 122)\<close>

definition pkg :: ustring where
  "pkg = ascii ''openai''"

definition cmd :: ustring where
  "cmd = ascii ''transcribe''"

text \<open>The message \<open>f"{pkg} {cmd}: ..."\<close> given to \<open>sys.exit\<close>.\<close>

definition diagnostic :: "ustring \<Rightarrow> ustring" where
  "diagnostic m = pkg @ ascii '' '' @ cmd @ ascii '': '' @ m"

text \<open>
  Lines 90 to 93: the exit message when the output file exists, otherwise the value of
  \<open>output_path\<close> when the line that binds it has run.
\<close>

definition check_output ::
  "env \<Rightarrow> ustring option \<Rightarrow> state \<Rightarrow> (ustring + ustring option) \<times> state" where
  "check_output e output st =
     (if truthy output then
        (case output of
           None \<Rightarrow> (Inr None, st)
         | Some out \<Rightarrow>
             (let st = called GetCmdCwd st;
                  output_path = path_join (cmd_cwd e) out;
                  st = called (PathExists output_path) st
              in if path_exists st output_path
                 then (Inl (diagnostic (ascii ''Output file already exists: '' @ out)), st)
                 else (Inr (Some output_path), st)))
      else (Inr None, st))"

definition cli ::
  "handler \<Rightarrow> env \<Rightarrow> ustring option \<Rightarrow> ustring option \<Rightarrow> ustring option \<Rightarrow> ustring option
     \<Rightarrow> state \<Rightarrow> outcome \<times> state" where
  "cli output_handler e filename lang format output st =
     (let st = called (LoadModel (ascii ''small'')) st;
          missing = (Exited (diagnostic (ascii ''A filename is required.'')), st)
      in case filename of
           None \<Rightarrow> missing
         | Some fname \<Rightarrow>
             if fname = [] then missing
             else
               (let st = called GetCmdCwd st;
                    path = path_join (cmd_cwd e) fname;
                    st = called (PathExists path) st
                in if \<not> path_exists st path
                   then (Exited (diagnostic (ascii ''File not found: '' @ path)), st)
                   else
                     (case check_output e output st of
                        (Inl message, st) \<Rightarrow> (Exited message, st)
                      | (Inr output_path, st) \<Rightarrow>
                          (let input_path = quote path;
                               st = called (Transcribe input_path lang) st;
                               result = transcribe e input_path lang
                           in case render output_handler format output output_path result st of
                                (oc, result', st) \<Rightarrow> (oc, st)))))"

text \<open>The transcriptions a state has recorded.\<close>

fun is_transcribe :: "call \<Rightarrow> bool" where
  "is_transcribe (Transcribe p l) = True"
| "is_transcribe c = False"

definition transcriptions :: "state \<Rightarrow> call list" where
  "transcriptions st = filter is_transcribe (calls st)"

section \<open>The output handler and its time stamps\<close>

text \<open>The formats the help of \<open>--format\<close> and the documentation of the command list.\<close>

definition formats :: "ustring list" where
  "formats = map ascii [''txt'', ''json'', ''srt'', ''tsv'', ''vtt'']"

text \<open>
  Modelled from the spec: the class \<open>OutputHandler\<close> of module \<open>output_handler\<close>, which is
  not among the sources. The specification gives it the contract of \<open>render\<close>: it fails with
  \<open>UnsupportedFormatError\<close> if the format is not one of the five recognized kinds, and
  otherwise serializes the result in that format, to the destination if there is one and
  for display on the console if there is none. What is written is kept as the pair of the
  format and the result it serializes. A failing write (\<open>IOError\<close>) is not modelled. The
  result is only read.
\<close>

definition OutputHandler_write :: handler where
  "OutputHandler_write fmt destination result st =
     (if fmt \<notin> set formats then (Raised UnsupportedFormatError, result, st)
      else case destination of
             None \<Rightarrow> (Returned, result, st\<lparr>stdout := stdout st @ [Rendered fmt result]\<rparr>)
           | Some p \<Rightarrow> (Returned, result, st\<lparr>files := (files st)(p \<mapsto> Rendering fmt result)\<rparr>))"

text \<open>
  Modelled from the spec: the fields of a time stamp, which the output handler (not among
  the sources) pads with zeros to a fixed width. These are the decimal digits of a number
  and the padding on the left; a number with more digits than the width is not cut.
\<close>

fun decimal :: "nat \<Rightarrow> ustring" where
  "decimal n =
     (if n < 10 then [of_char CHR ''0'' + n]
      else decimal (n div 10) @ [of_char CHR ''0'' + n mod 10])"

declare decimal.simps [simp del]

definition zero_pad :: "nat \<Rightarrow> nat \<Rightarrow> ustring" where
  "zero_pad width n =
     replicate (width - length (decimal n)) (of_char CHR ''0'') @ decimal n"

text \<open>
  Modelled from the spec: the time stamp conversion of the output handler, which is not
  among the sources. Given the seconds \<open>t\<close>, the whole hours, minutes, seconds and
  milliseconds are computed by integer division and modulo on \<open>t * 1000\<close> rounded to the
  nearest millisecond, and each field is padded with zeros to 2 digits (3 for the
  milliseconds). The seconds are a real number here, and a time stamp is not negative.
\<close>

definition format_timestamp :: "uchar \<Rightarrow> real \<Rightarrow> ustring" where
  "format_timestamp decimal_marker t =
     (let milliseconds = nat (round (t * 1000));
          hours = milliseconds div 3600000;
          milliseconds = milliseconds mod 3600000;
          minutes = milliseconds div 60000;
          milliseconds = milliseconds mod 60000;
          seconds = milliseconds div 1000;
          milliseconds = milliseconds mod 1000
      in zero_pad 2 hours @ ascii '':'' @ zero_pad 2 minutes @ ascii '':'' @
         zero_pad 2 seconds @ [decimal_marker] @ zero_pad 3 milliseconds)"

definition srt_timestamp :: "real \<Rightarrow> ustring" where
  "srt_timestamp t = format_timestamp (of_char CHR '','') t"

definition vtt_timestamp :: "real \<Rightarrow> ustring" where
  "vtt_timestamp t = format_timestamp (of_char CHR ''.'') t"

section \<open>Sentence grouping as the specification describes it\<close>

text \<open>
  A trimmed text ends a sentence when its last character is a terminator. The trimmed
  texts are cut after every text that ends a sentence; what follows the last such text is a
  group of its own. Each group is one line, its texts joined by single spaces.
\<close>

definition ends_sentence :: "ustring \<Rightarrow> bool" where
  "ends_sentence t \<longleftrightarrow> t \<noteq> [] \<and> last t \<in> set terminators"

function sentence_groups :: "ustring list \<Rightarrow> ustring list list" where
  "sentence_groups ts =
     (if ts = [] then []
      else case dropWhile (\<lambda>t. \<not> ends_sentence t) ts of
             [] \<Rightarrow> [ts]
           | t # rest \<Rightarrow> (takeWhile (\<lambda>t. \<not> ends_sentence t) ts @ [t]) # sentence_groups rest)"
  by pat_completeness auto
termination
proof (relation "measure length")
  fix ts t :: ustring and rest :: "ustring list" and tss :: "ustring list"
  assume "dropWhile (\<lambda>t. \<not> ends_sentence t) tss = t # rest"
  then have "length (t # rest) \<le> length tss"
    by (metis length_dropWhile_le)
  then show "(rest, tss) \<in> measure length" by simp
qed simp

declare sentence_groups.simps [simp del]

definition trimmed :: "segment list \<Rightarrow> ustring list" where
  "trimmed segs = map (\<lambda>s. strip (seg_text s)) segs"

definition sentence_lines :: "segment list \<Rightarrow> out_item list" where
  "sentence_lines segs = map (\<lambda>g. Line (join_space g)) (sentence_groups (trimmed segs))"

section \<open>The console loop\<close>

text \<open>The loop hands the result object back as it got it.\<close>

lemma console_loop_result: "fst (snd (console_loop i r b st)) = r"
proof (induction i r b st rule: console_loop.induct)
  case (1 i r b st)
  show ?case
    using 1 by (subst console_loop.simps) (simp add: Let_def split: sum.splits)
qed

lemma index_last_nonempty: "t \<noteq> [] \<Longrightarrow> index_last t = Inr (last t)"
  by (cases t) simp_all

lemma sentence_groups_open:
  assumes "\<forall>b \<in> set buf. \<not> ends_sentence b"
  shows "sentence_groups buf = (if buf = [] then [] else [buf])"
proof -
  from assms have d: "dropWhile (\<lambda>t. \<not> ends_sentence t) buf = []"
    by simp
  show ?thesis
    by (subst sentence_groups.simps) (simp add: d)
qed

lemma sentence_groups_cut:
  assumes "\<forall>b \<in> set buf. \<not> ends_sentence b" and "ends_sentence t"
  shows "sentence_groups (buf @ t # ts) = (buf @ [t]) # sentence_groups ts"
proof -
  from assms have d: "dropWhile (\<lambda>t. \<not> ends_sentence t) (buf @ t # ts) = t # ts"
    by (simp add: dropWhile_append3)
  from assms have k: "takeWhile (\<lambda>t. \<not> ends_sentence t) (buf @ t # ts) = buf"
    by (simp add: takeWhile_tail)
  show ?thesis
    by (subst sentence_groups.simps) (simp add: d k)
qed


lemma console_loop_groups:
  assumes "\<forall>s \<in> set (drop i (segments r)). strip (seg_text s) \<noteq> []"
    and "\<forall>b \<in> set buf. \<not> ends_sentence b"
  shows "\<exists>buf' out. console_loop i r buf st = (Returned, r, buf', st\<lparr>stdout := stdout st @ out\<rparr>) \<and>
           out @ (if buf' = [] then [] else [Line (join_space buf')]) =
             map (\<lambda>g. Line (join_space g)) (sentence_groups (buf @ trimmed (drop i (segments r))))"
  using assms
proof (induction i r buf st rule: console_loop.induct)
  case (1 i r buf st)
  show ?case
  proof (cases "i < length (segments r)")
    case False
    then have "console_loop i r buf st = (Returned, r, buf, st\<lparr>stdout := stdout st @ []\<rparr>)"
      by (subst console_loop.simps) simp
    moreover from False "1.prems"(2)
    have "[] @ (if buf = [] then [] else [Line (join_space buf)]) =
        map (\<lambda>g. Line (join_space g)) (sentence_groups (buf @ trimmed (drop i (segments r))))"
      by (simp add: trimmed_def sentence_groups_open)
    ultimately show ?thesis by blast
  next
    case True
    define seg where "seg = segments r ! i"
    define t where "t = strip (seg_text seg)"
    from True have dr: "drop i (segments r) = seg # drop (Suc i) (segments r)"
      by (simp add: seg_def Cons_nth_drop_Suc)
    with "1.prems"(1) have tne: "t \<noteq> []" and rest: "\<forall>s \<in> set (drop (Suc i) (segments r)). strip (seg_text s) \<noteq> []"
      by (simp_all add: t_def)
    have il: "index_last t = Inr (last t)" using tne by (rule index_last_nonempty)
    have tr: "trimmed (drop i (segments r)) = t # trimmed (drop (Suc i) (segments r))"
      by (simp add: dr trimmed_def t_def)
    show ?thesis
    proof (cases "last t \<in> set terminators")
      case in_t: True
      then have es: "ends_sentence t" using tne by (simp add: ends_sentence_def)
      have step: "console_loop i r buf st = console_loop (Suc i) r [] (print (join_space (buf @ [t])) st)"
        using True il in_t by (subst console_loop.simps) (simp add: Let_def seg_def[symmetric] t_def[symmetric])
      from "1.IH"(1)[OF True seg_def refl, of "last t"] il in_t rest
      obtain buf' out where
        ih: "console_loop (Suc i) r [] (print (join_space (buf @ [t])) st) =
               (Returned, r, buf', (print (join_space (buf @ [t])) st)\<lparr>stdout := stdout (print (join_space (buf @ [t])) st) @ out\<rparr>)"
        and eq: "out @ (if buf' = [] then [] else [Line (join_space buf')]) =
             map (\<lambda>g. Line (join_space g)) (sentence_groups ([] @ trimmed (drop (Suc i) (segments r))))"
        by (auto simp: t_def)
      have "console_loop i r buf st = (Returned, r, buf', st\<lparr>stdout := stdout st @ (Line (join_space (buf @ [t])) # out)\<rparr>)"
        using ih by (simp add: step print_def)
      moreover have "(Line (join_space (buf @ [t])) # out) @ (if buf' = [] then [] else [Line (join_space buf')]) =
          map (\<lambda>g. Line (join_space g)) (sentence_groups (buf @ trimmed (drop i (segments r))))"
        using eq by (simp add: tr sentence_groups_cut[OF "1.prems"(2) es])
      ultimately show ?thesis by blast
    next
      case not_t: False
      then have es: "\<not> ends_sentence t" by (simp add: ends_sentence_def)
      have step: "console_loop i r buf st = console_loop (Suc i) r (buf @ [t]) st"
        using True il not_t by (subst console_loop.simps) (simp add: Let_def seg_def[symmetric] t_def[symmetric])
      have inv: "\<forall>b \<in> set (buf @ [t]). \<not> ends_sentence b"
        using "1.prems"(2) es by simp
      from "1.IH"(2)[OF True seg_def refl, of "last t"] il not_t rest inv
      obtain buf' out where
        ih: "console_loop (Suc i) r (buf @ [t]) st = (Returned, r, buf', st\<lparr>stdout := stdout st @ out\<rparr>)"
        and eq: "out @ (if buf' = [] then [] else [Line (join_space buf')]) =
             map (\<lambda>g. Line (join_space g)) (sentence_groups ((buf @ [t]) @ trimmed (drop (Suc i) (segments r))))"
        by (auto simp: t_def)
      have "console_loop i r buf st = (Returned, r, buf', st\<lparr>stdout := stdout st @ out\<rparr>)"
        by (simp add: step ih)
      moreover have "out @ (if buf' = [] then [] else [Line (join_space buf')]) =
          map (\<lambda>g. Line (join_space g)) (sentence_groups (buf @ trimmed (drop i (segments r))))"
        using eq by (simp add: tr)
      ultimately show ?thesis by blast
    qed
  qed
qed


lemma console_loop_outcome:
  "fst (console_loop i r buf st) =
     (if [] \<in> set (trimmed (drop i (segments r))) then Raised IndexError else Returned)"
proof (induction i r buf st rule: console_loop.induct)
  case (1 i r buf st)
  show ?case
  proof (cases "i < length (segments r)")
    case False
    then show ?thesis
      by (subst console_loop.simps) (simp add: trimmed_def)
  next
    case True
    define t where "t = strip (seg_text (segments r ! i))"
    from True have tr: "trimmed (drop i (segments r)) = t # trimmed (drop (Suc i) (segments r))"
      by (simp add: trimmed_def t_def flip: Cons_nth_drop_Suc)
    show ?thesis
    proof (cases "t = []")
      case True
      with \<open>i < length (segments r)\<close> show ?thesis
        by (subst console_loop.simps) (simp add: Let_def tr flip: t_def)
    next
      case False
      then have il: "index_last t = Inr (last t)" by (rule index_last_nonempty)
      from False have ne: "([] \<in> set (trimmed (drop i (segments r)))) = ([] \<in> set (trimmed (drop (Suc i) (segments r))))"
        by (auto simp: tr)
      show ?thesis
      proof (cases "last t \<in> set terminators")
        case in_t: True
        from "1.IH"(1)[OF True refl refl, of "last t"] il in_t
        have "fst (console_loop (Suc i) r [] (print (join_space (buf @ [t])) st)) =
               (if [] \<in> set (trimmed (drop (Suc i) (segments r))) then Raised IndexError else Returned)"
          by (simp add: t_def)
        moreover have "console_loop i r buf st = console_loop (Suc i) r [] (print (join_space (buf @ [t])) st)"
          using True il in_t by (subst console_loop.simps) (simp add: Let_def flip: t_def)
        ultimately show ?thesis by (simp add: ne)
      next
        case not_t: False
        from "1.IH"(2)[OF True refl refl, of "last t"] il not_t
        have "fst (console_loop (Suc i) r (buf @ [t]) st) =
               (if [] \<in> set (trimmed (drop (Suc i) (segments r))) then Raised IndexError else Returned)"
          by (simp add: t_def)
        moreover have "console_loop i r buf st = console_loop (Suc i) r (buf @ [t]) st"
          using True il not_t by (subst console_loop.simps) (simp add: Let_def flip: t_def)
        ultimately show ?thesis by (simp add: ne)
      qed
    qed
  qed
qed

lemma console_output_outcome:
  "fst (console_output r st) =
     (if [] \<in> set (trimmed (segments r)) then Raised IndexError else Returned)"
proof -
  obtain oc r' b st' where c: "console_loop 0 r [] st = (oc, r', b, st')"
    by (cases "console_loop 0 r [] st") auto
  with console_loop_outcome[of 0 r "[]" st]
  have "oc = (if [] \<in> set (trimmed (segments r)) then Raised IndexError else Returned)"
    by simp
  then show ?thesis
    by (simp add: console_output_def c)
qed

lemma console_output_result: "fst (snd (console_output r st)) = r"
proof -
  obtain oc r' b st' where c: "console_loop 0 r [] st = (oc, r', b, st')"
    by (cases "console_loop 0 r [] st") auto
  with console_loop_result[of 0 r "[]" st] have "r' = r" by simp
  then show ?thesis
    by (simp add: console_output_def c split: outcome.splits)
qed

lemma console_output_lines:
  assumes "[] \<notin> set (trimmed (segments r))"
  shows "console_output r st = (Returned, r, st\<lparr>stdout := stdout st @ sentence_lines (segments r)\<rparr>)"
proof -
  from assms have ne: "\<forall>s \<in> set (drop 0 (segments r)). strip (seg_text s) \<noteq> []"
    by (force simp: trimmed_def image_iff)
  from console_loop_groups[OF ne, of "[]" st]
  obtain buf' out where
    l: "console_loop 0 r [] st = (Returned, r, buf', st\<lparr>stdout := stdout st @ out\<rparr>)"
    and eq: "out @ (if buf' = [] then [] else [Line (join_space buf')]) = sentence_lines (segments r)"
    by (auto simp: sentence_lines_def)
  show ?thesis
  proof (cases "buf' = []")
    case True
    with eq l show ?thesis by (simp add: console_output_def)
  next
    case False
    with eq have "out @ [Line (join_space buf')] = sentence_lines (segments r)" by simp
    with False l show ?thesis by (simp add: console_output_def print_def)
  qed
qed

lemma render_console: "render h None None op r st = console_output r st"
  by (simp add: render_def)

section \<open>The groups of the specification\<close>

text \<open>
  The groups, one after the other, are the texts; no group is empty; only the last text of
  a group can end a sentence, and in every group but the last it does.
\<close>

lemma sentence_groups_concat: "concat (sentence_groups ts) = ts"
proof (induction ts rule: sentence_groups.induct)
  case (1 ts)
  show ?case
  proof (cases "dropWhile (\<lambda>t. \<not> ends_sentence t) ts")
    case Nil
    show ?thesis
      by (subst sentence_groups.simps) (simp add: Nil)
  next
    case (Cons t rest)
    then have ne: "ts \<noteq> []" by auto
    from "1.IH"[OF ne Cons] have ih: "concat (sentence_groups rest) = rest" .
    have "takeWhile (\<lambda>t. \<not> ends_sentence t) ts @ t # rest = ts"
      using takeWhile_dropWhile_id[of "\<lambda>t. \<not> ends_sentence t" ts] Cons by simp
    with ih ne show ?thesis
      by (subst sentence_groups.simps) (simp add: Cons)
  qed
qed

lemma sentence_groups_inner:
  "g \<in> set (sentence_groups ts) \<Longrightarrow> g \<noteq> [] \<and> (\<forall>t \<in> set (butlast g). \<not> ends_sentence t)"
proof (induction ts arbitrary: g rule: sentence_groups.induct)
  case (1 ts)
  show ?case
  proof (cases "dropWhile (\<lambda>t. \<not> ends_sentence t) ts")
    case Nil
    have "sentence_groups ts = (if ts = [] then [] else [ts])"
      by (subst sentence_groups.simps) (simp add: Nil)
    with "1.prems" have g: "ts \<noteq> []" "g = ts"
      by (simp_all split: if_splits)
    from Nil have "\<forall>t \<in> set ts. \<not> ends_sentence t"
      by (simp add: dropWhile_eq_Nil_conv)
    with g show ?thesis
      by (auto dest: in_set_butlastD)
  next
    case (Cons t rest)
    then have ne: "ts \<noteq> []" by auto
    from ne have "sentence_groups ts =
        (takeWhile (\<lambda>t. \<not> ends_sentence t) ts @ [t]) # sentence_groups rest"
      by (subst sentence_groups.simps) (simp add: Cons)
    with "1.prems"
    have "g = takeWhile (\<lambda>t. \<not> ends_sentence t) ts @ [t] \<or> g \<in> set (sentence_groups rest)"
      by simp
    then show ?thesis
    proof
      assume "g = takeWhile (\<lambda>t. \<not> ends_sentence t) ts @ [t]"
      then show ?thesis
        by (auto dest: set_takeWhileD)
    next
      assume "g \<in> set (sentence_groups rest)"
      then show ?thesis
        by (rule "1.IH"[OF ne Cons])
    qed
  qed
qed

lemma sentence_groups_closed:
  "g \<in> set (butlast (sentence_groups ts)) \<Longrightarrow> ends_sentence (last g)"
proof (induction ts arbitrary: g rule: sentence_groups.induct)
  case (1 ts)
  show ?case
  proof (cases "dropWhile (\<lambda>t. \<not> ends_sentence t) ts")
    case Nil
    have "sentence_groups ts = (if ts = [] then [] else [ts])"
      by (subst sentence_groups.simps) (simp add: Nil)
    with "1.prems" show ?thesis
      by (simp split: if_splits)
  next
    case (Cons t rest)
    then have ne: "ts \<noteq> []" by auto
    from Cons have et: "ends_sentence t"
      using hd_dropWhile[of "\<lambda>t. \<not> ends_sentence t" ts] by simp
    from ne have sg: "sentence_groups ts =
        (takeWhile (\<lambda>t. \<not> ends_sentence t) ts @ [t]) # sentence_groups rest"
      by (subst sentence_groups.simps) (simp add: Cons)
    with "1.prems"
    have "sentence_groups rest \<noteq> [] \<and>
        (g = takeWhile (\<lambda>t. \<not> ends_sentence t) ts @ [t] \<or> g \<in> set (butlast (sentence_groups rest)))"
      by (auto split: if_splits)
    then show ?thesis
      using et "1.IH"[OF ne Cons] by auto
  qed
qed

section \<open>Sentence grouping on the console\<close>

text \<open>The texts of the examples of the specification.\<close>

lemma strip_Hello: "strip (ascii ''Hello'') = ascii ''Hello''"
  by (simp add: strip_def ascii_def isspace_def)

lemma strip_world_dot: "strip (ascii ''world.'') = ascii ''world.''"
  by (simp add: strip_def ascii_def isspace_def)

lemma strip_world: "strip (ascii ''world'') = ascii ''world''"
  by (simp add: strip_def ascii_def isspace_def)

lemma strip_Next: "strip (ascii ''Next sentence.'') = ascii ''Next sentence.''"
  by (simp add: strip_def ascii_def isspace_def)

lemma ends_examples:
  "\<not> ends_sentence (ascii ''Hello'')" "ends_sentence (ascii ''world.'')"
  "\<not> ends_sentence (ascii ''world'')" "ends_sentence (ascii ''Next sentence.'')"
  by (simp_all add: ends_sentence_def terminators_def ascii_def)

lemma groups_split_example:
  "sentence_groups [ascii ''Hello'', ascii ''world.'', ascii ''Next sentence.''] =
     [[ascii ''Hello'', ascii ''world.''], [ascii ''Next sentence.'']]"
proof -
  have "sentence_groups [ascii ''Hello'', ascii ''world.'', ascii ''Next sentence.''] =
      [ascii ''Hello'', ascii ''world.''] # sentence_groups [ascii ''Next sentence.'']"
    using sentence_groups_cut[of "[ascii ''Hello'']" "ascii ''world.''" "[ascii ''Next sentence.'']"]
    by (simp add: ends_examples)
  moreover have "sentence_groups [ascii ''Next sentence.''] = [ascii ''Next sentence.''] # sentence_groups []"
    using sentence_groups_cut[of "[]" "ascii ''Next sentence.''" "[]"]
    by (simp add: ends_examples)
  moreover have "sentence_groups [] = []"
    by (simp add: sentence_groups_open)
  ultimately show ?thesis by simp
qed

lemma groups_trailing_example:
  "sentence_groups [ascii ''Hello'', ascii ''world''] = [[ascii ''Hello'', ascii ''world'']]"
  by (simp add: sentence_groups_open ends_examples)

lemma trimmed_texts: "trimmed segs = map strip (map seg_text segs)"
  by (simp add: trimmed_def)

text \<open>
  Claim C1. When neither a format nor an output is given and no segment has an empty
  trimmed text, the command returns after printing, in order, one line for every group of
  the trimmed texts: the texts up to and including each text that ends with one of
  \<open>. ? !\<close> or their full-width forms, joined by single spaces, and at the end the remaining
  texts, if any, as a last line. The result object is the one it was given. For the texts
  \<open>Hello\<close>, \<open>world.\<close>, \<open>Next sentence.\<close> the lines are \<open>Hello world.\<close> and
  \<open>Next sentence.\<close>; for \<open>Hello\<close>, \<open>world\<close> the only line is \<open>Hello world\<close>.
\<close>

theorem console_sentence_grouping:
  "([] \<notin> set (trimmed (segments r)) \<longrightarrow>
      render h None None op r st =
        (Returned, r, st\<lparr>stdout := stdout st @ sentence_lines (segments r)\<rparr>)) \<and>
   (map seg_text (segments r) = [ascii ''Hello'', ascii ''world.'', ascii ''Next sentence.''] \<longrightarrow>
      render h None None op r st =
        (Returned, r, st\<lparr>stdout := stdout st @
           [Line (ascii ''Hello world.''), Line (ascii ''Next sentence.'')]\<rparr>)) \<and>
   (map seg_text (segments r) = [ascii ''Hello'', ascii ''world''] \<longrightarrow>
      render h None None op r st =
        (Returned, r, st\<lparr>stdout := stdout st @ [Line (ascii ''Hello world'')]\<rparr>))"
proof (intro conjI impI)
  assume "[] \<notin> set (trimmed (segments r))"
  then show "render h None None op r st =
      (Returned, r, st\<lparr>stdout := stdout st @ sentence_lines (segments r)\<rparr>)"
    by (simp add: render_console console_output_lines)
next
  assume a: "map seg_text (segments r) = [ascii ''Hello'', ascii ''world.'', ascii ''Next sentence.'']"
  then have t: "trimmed (segments r) = [ascii ''Hello'', ascii ''world.'', ascii ''Next sentence.'']"
    by (simp add: trimmed_texts strip_Hello strip_world_dot strip_Next)
  have ne: "[] \<notin> set (trimmed (segments r))"
    by (simp add: t ascii_def)
  have "sentence_groups (trimmed (segments r)) =
      [[ascii ''Hello'', ascii ''world.''], [ascii ''Next sentence.'']]"
    by (simp only: t groups_split_example)
  then have "sentence_lines (segments r) = [Line (ascii ''Hello world.''), Line (ascii ''Next sentence.'')]"
    by (simp add: sentence_lines_def ascii_def)
  with ne show "render h None None op r st =
      (Returned, r, st\<lparr>stdout := stdout st @
           [Line (ascii ''Hello world.''), Line (ascii ''Next sentence.'')]\<rparr>)"
    by (simp add: render_console console_output_lines)
next
  assume a: "map seg_text (segments r) = [ascii ''Hello'', ascii ''world'']"
  then have t: "trimmed (segments r) = [ascii ''Hello'', ascii ''world'']"
    by (simp add: trimmed_texts strip_Hello strip_world)
  have ne: "[] \<notin> set (trimmed (segments r))"
    by (simp add: t ascii_def)
  have "sentence_groups (trimmed (segments r)) = [[ascii ''Hello'', ascii ''world'']]"
    by (simp only: t groups_trailing_example)
  then have "sentence_lines (segments r) = [Line (ascii ''Hello world'')]"
    by (simp add: sentence_lines_def ascii_def)
  with ne show "render h None None op r st =
      (Returned, r, st\<lparr>stdout := stdout st @ [Line (ascii ''Hello world'')]\<rparr>)"
    by (simp add: render_console console_output_lines)
qed


text \<open>The three parts at concrete results, printed to an empty output.\<close>

theorem console_sentence_grouping_witness:
  "(let r = \<lparr>segments = [\<lparr>seg_text = ascii ''Hello'', seg_start = 0, seg_end = 1\<rparr>,
                            \<lparr>seg_text = ascii ''world.'', seg_start = 1, seg_end = 2\<rparr>,
                            \<lparr>seg_text = ascii ''Next sentence.'', seg_start = 2, seg_end = 3\<rparr>],
              language = None\<rparr>;
        st = \<lparr>files = Map.empty, stdout = [], calls = []\<rparr>
    in [] \<notin> set (trimmed (segments r)) \<and>
       render OutputHandler_write None None None r st =
         (Returned, r, st\<lparr>stdout := sentence_lines (segments r)\<rparr>) \<and>
       render OutputHandler_write None None None r st =
         (Returned, r, st\<lparr>stdout := [Line (ascii ''Hello world.''), Line (ascii ''Next sentence.'')]\<rparr>)) \<and>
   (let r = \<lparr>segments = [\<lparr>seg_text = ascii ''Hello'', seg_start = 0, seg_end = 1\<rparr>,
                            \<lparr>seg_text = ascii ''world'', seg_start = 1, seg_end = 2\<rparr>],
              language = None\<rparr>;
        st = \<lparr>files = Map.empty, stdout = [], calls = []\<rparr>
    in render OutputHandler_write None None None r st =
         (Returned, r, st\<lparr>stdout := [Line (ascii ''Hello world'')]\<rparr>))"
proof -
  let ?r = "\<lparr>segments = [\<lparr>seg_text = ascii ''Hello'', seg_start = 0, seg_end = 1\<rparr>,
                            \<lparr>seg_text = ascii ''world.'', seg_start = 1, seg_end = 2\<rparr>,
                            \<lparr>seg_text = ascii ''Next sentence.'', seg_start = 2, seg_end = 3\<rparr>],
              language = None\<rparr>"
  let ?r' = "\<lparr>segments = [\<lparr>seg_text = ascii ''Hello'', seg_start = 0, seg_end = 1\<rparr>,
                            \<lparr>seg_text = ascii ''world'', seg_start = 1, seg_end = 2\<rparr>],
              language = None\<rparr>"
  let ?st = "\<lparr>files = Map.empty, stdout = [], calls = []\<rparr>"
  have a: "[] \<notin> set (trimmed (segments ?r))"
    by (simp add: trimmed_def strip_def isspace_def ascii_def)
  have b: "map seg_text (segments ?r) = [ascii ''Hello'', ascii ''world.'', ascii ''Next sentence.'']"
    by simp
  have c: "map seg_text (segments ?r') = [ascii ''Hello'', ascii ''world'']"
    by simp
  note th = console_sentence_grouping[of ?r OutputHandler_write None ?st]
  note th' = console_sentence_grouping[of ?r' OutputHandler_write None ?st]
  from th a have 1: "render OutputHandler_write None None None ?r ?st =
        (Returned, ?r, ?st\<lparr>stdout := stdout ?st @ sentence_lines (segments ?r)\<rparr>)"
    by blast
  from th b have 2: "render OutputHandler_write None None None ?r ?st =
        (Returned, ?r, ?st\<lparr>stdout := stdout ?st @
           [Line (ascii ''Hello world.''), Line (ascii ''Next sentence.'')]\<rparr>)"
    by blast
  from th' c have 3: "render OutputHandler_write None None None ?r' ?st =
        (Returned, ?r', ?st\<lparr>stdout := stdout ?st @ [Line (ascii ''Hello world'')]\<rparr>)"
    by blast
  show ?thesis
    unfolding Let_def using a 1 2 3 by simp
qed

text \<open>
  Claim C2. The loop indexes the last character of the trimmed text with no test for
  emptiness: at a segment whose trimmed text is empty it stops with \<open>IndexError\<close>, the
  empty text already appended to the buffer. So the console output raises \<open>IndexError\<close>
  when some segment has an empty trimmed text, and it returns exactly when none has.
\<close>

theorem empty_segment_index_error:
  "(i < length (segments r) \<and> strip (seg_text (segments r ! i)) = [] \<longrightarrow>
      console_loop i r buf st = (Raised IndexError, r, buf @ [[]], st)) \<and>
   ([] \<in> set (trimmed (segments r)) \<longrightarrow>
      fst (render h None None op r st) = Raised IndexError) \<and>
   (fst (render h None None op r st) = Returned \<longleftrightarrow> [] \<notin> set (trimmed (segments r)))"
proof (intro conjI impI)
  assume "i < length (segments r) \<and> strip (seg_text (segments r ! i)) = []"
  then show "console_loop i r buf st = (Raised IndexError, r, buf @ [[]], st)"
    by (subst console_loop.simps) (simp add: Let_def)
next
  assume "[] \<in> set (trimmed (segments r))"
  then show "fst (render h None None op r st) = Raised IndexError"
    by (simp add: render_console console_output_outcome)
next
  show "fst (render h None None op r st) = Returned \<longleftrightarrow> [] \<notin> set (trimmed (segments r))"
    by (simp add: render_console console_output_outcome)
qed

text \<open>A result whose second segment is white space only.\<close>

theorem empty_segment_index_error_witness:
  "(let r = \<lparr>segments = [\<lparr>seg_text = ascii '' Hi. '', seg_start = 0, seg_end = 1\<rparr>,
                            \<lparr>seg_text = ascii ''   '', seg_start = 1, seg_end = 2\<rparr>],
              language = None\<rparr>;
        st = \<lparr>files = Map.empty, stdout = [], calls = []\<rparr>
    in strip (seg_text (segments r ! 1)) = [] \<and>
       console_loop 1 r [] st = (Raised IndexError, r, [[]], st) \<and>
       fst (render OutputHandler_write None None None r st) = Raised IndexError)"
proof -
  let ?r = "\<lparr>segments = [\<lparr>seg_text = ascii '' Hi. '', seg_start = 0, seg_end = 1\<rparr>,
                            \<lparr>seg_text = ascii ''   '', seg_start = 1, seg_end = 2\<rparr>],
              language = None\<rparr>"
  let ?st = "\<lparr>files = Map.empty, stdout = [], calls = []\<rparr>"
  have a: "strip (seg_text (segments ?r ! 1)) = []"
    by (simp add: strip_def isspace_def ascii_def)
  have b: "[] \<in> set (trimmed (segments ?r))"
    by (simp add: trimmed_def strip_def isspace_def ascii_def)
  note th = empty_segment_index_error[of 1 ?r "[]" ?st OutputHandler_write None]
  from th a have 1: "console_loop 1 ?r [] ?st = (Raised IndexError, ?r, [] @ [[]], ?st)"
    by simp
  from th b have 2: "fst (render OutputHandler_write None None None ?r ?st) = Raised IndexError"
    by blast
  show ?thesis
    unfolding Let_def using a 1 2 by simp
qed

section \<open>The result object is only read\<close>

lemma OutputHandler_write_result: "fst (snd (OutputHandler_write f d r s)) = r"
  by (simp add: OutputHandler_write_def split: option.splits)

text \<open>
  Claim C8. Rendering hands the result object back as it got it: the console output does,
  so the segments, their order and their texts and times are the same after it as
  before; and with a format or an output the same holds for every output handler that
  itself leaves the result as it is.
\<close>

theorem render_keeps_result:
  "fst (snd (console_output r st)) = r \<and>
   segments (fst (snd (render h None None op r st))) = segments r \<and>
   ((\<forall>f d r' s. fst (snd (h f d r' s)) = r') \<longrightarrow>
      fst (snd (render h format output op r st)) = r)"
  by (simp add: render_def console_output_result split: sum.splits)

text \<open>With the output handler of the specification, and on the console.\<close>

theorem render_keeps_result_witness:
  "(let r = \<lparr>segments = [\<lparr>seg_text = ascii '' Hi. '', seg_start = 0, seg_end = 1\<rparr>],
              language = Some (ascii ''en'')\<rparr>;
        st = \<lparr>files = Map.empty, stdout = [], calls = []\<rparr>
    in fst (snd (render OutputHandler_write (Some (ascii ''srt'')) None None r st)) = r \<and>
       fst (snd (render OutputHandler_write None None None r st)) = r)"
  unfolding Let_def
  using render_keeps_result[of _ _ OutputHandler_write] OutputHandler_write_result
  by blast

section \<open>The format derived from the name of the output\<close>

lemma split_acc_nonempty: "split_acc sep cur s \<noteq> []"
  by (induction s arbitrary: cur) auto

lemma split_acc_no_sep: "sep \<notin> set s \<Longrightarrow> split_acc sep cur s = [rev cur @ s]"
  by (induction s arbitrary: cur) auto

lemma split_acc_last:
  "sep \<notin> set ext \<Longrightarrow> last (split_acc sep cur (pre @ sep # ext)) = ext"
  by (induction pre arbitrary: cur) (auto simp: split_acc_no_sep split_acc_nonempty)

lemma extension_Some: "extension (Some out) = Inr (last (split out (of_char CHR ''.'')))"
  by (simp add: extension_def split_def index_last_nonempty split_acc_nonempty)

lemma extension_after_dot:
  "of_char CHR ''.'' \<notin> set ext \<Longrightarrow> extension (Some (pre @ of_char CHR ''.'' # ext)) = Inr ext"
  by (simp add: extension_Some split_def split_acc_last)

lemma extension_dotless:
  "of_char CHR ''.'' \<notin> set out \<Longrightarrow> extension (Some out) = Inr out"
  by (simp add: extension_Some split_def split_acc_no_sep)

lemma render_derived:
  assumes "extension (Some out) = Inr x"
  shows "render h None (Some out) op r st = render h (Some x) (Some out) op r st"
proof (cases "out = []")
  case True
  with assms have "x = []"
    by (simp add: extension_def split_def)
  with True show ?thesis by (simp add: render_def)
next
  case False
  with assms show ?thesis
    by (simp add: render_def output_format_def)
qed

lemma cli_render_cong:
  assumes "\<And>op r s. render h f1 out op r s = render h f2 out op r s"
  shows "cli h e filename lang f1 out st = cli h e filename lang f2 out st"
  unfolding cli_def by (simp only: assms)

lemma ext_vtt: "extension (Some (ascii ''out.vtt'')) = Inr (ascii ''vtt'')"
proof -
  have "of_char CHR ''.'' \<notin> set (ascii ''vtt'')" by (simp add: ascii_def)
  from extension_after_dot[OF this, of "ascii ''out''"] show ?thesis
    by (simp add: ascii_def)
qed

text \<open>
  Claim C3. With the output \<open>out.vtt\<close> and no format the command, and its rendering of any
  result in any state, is the same as with the format \<open>vtt\<close> and that output. The format
  used when none is given is the text of the output name after its last \<open>.\<close>, and giving
  that text as the format changes nothing, for every output name.
\<close>

theorem extension_inference:
  "cli h e filename lang None (Some (ascii ''out.vtt'')) st =
     cli h e filename lang (Some (ascii ''vtt'')) (Some (ascii ''out.vtt'')) st \<and>
   render h None (Some (ascii ''out.vtt'')) op r st =
     render h (Some (ascii ''vtt'')) (Some (ascii ''out.vtt'')) op r st \<and>
   output_format None (Some (ascii ''out.vtt'')) = Inr (ascii ''vtt'') \<and>
   (of_char CHR ''.'' \<notin> set ext \<longrightarrow>
      output_format None (Some (pre @ of_char CHR ''.'' # ext)) = Inr ext) \<and>
   (extension (Some out) = Inr x \<longrightarrow>
      render h None (Some out) op r st = render h (Some x) (Some out) op r st \<and>
      cli h e filename lang None (Some out) st = cli h e filename lang (Some x) (Some out) st)"
proof (intro conjI impI)
  show "cli h e filename lang None (Some (ascii ''out.vtt'')) st =
     cli h e filename lang (Some (ascii ''vtt'')) (Some (ascii ''out.vtt'')) st"
    by (rule cli_render_cong) (rule render_derived[OF ext_vtt])
  show "render h None (Some (ascii ''out.vtt'')) op r st =
     render h (Some (ascii ''vtt'')) (Some (ascii ''out.vtt'')) op r st"
    by (rule render_derived[OF ext_vtt])
  show "output_format None (Some (ascii ''out.vtt'')) = Inr (ascii ''vtt'')"
    by (simp add: output_format_def ext_vtt)
next
  assume "of_char CHR ''.'' \<notin> set ext"
  from extension_after_dot[OF this, of pre]
  show "output_format None (Some (pre @ of_char CHR ''.'' # ext)) = Inr ext"
    by (simp add: output_format_def)
next
  assume a: "extension (Some out) = Inr x"
  show "render h None (Some out) op r st = render h (Some x) (Some out) op r st"
    by (rule render_derived[OF a])
  show "cli h e filename lang None (Some out) st = cli h e filename lang (Some x) (Some out) st"
    by (rule cli_render_cong) (rule render_derived[OF a])
qed

text \<open>The names \<open>a.b.srt\<close> and \<open>notes.tsv\<close>.\<close>

theorem extension_inference_witness:
  "output_format None (Some (ascii ''a.b'' @ of_char CHR ''.'' # ascii ''srt'')) = Inr (ascii ''srt'') \<and>
   extension (Some (ascii ''notes.tsv'')) = Inr (ascii ''tsv'') \<and>
   render OutputHandler_write None (Some (ascii ''notes.tsv'')) (Some (ascii ''/w/notes.tsv''))
       \<lparr>segments = [], language = None\<rparr> \<lparr>files = Map.empty, stdout = [], calls = []\<rparr> =
     render OutputHandler_write (Some (ascii ''tsv'')) (Some (ascii ''notes.tsv'')) (Some (ascii ''/w/notes.tsv''))
       \<lparr>segments = [], language = None\<rparr> \<lparr>files = Map.empty, stdout = [], calls = []\<rparr>"
proof -
  have a: "of_char CHR ''.'' \<notin> set (ascii ''srt'')" by (simp add: ascii_def)
  have b: "extension (Some (ascii ''notes.tsv'')) = Inr (ascii ''tsv'')"
    by (simp add: extension_def split_def ascii_def)
  note th = extension_inference[where h = OutputHandler_write and ext = "ascii ''srt''"
      and pre = "ascii ''a.b''" and out = "ascii ''notes.tsv''" and x = "ascii ''tsv''"]
  from th a b show ?thesis by blast
qed

text \<open>
  Claim C10. Deriving the format from an output name never fails, and whenever the format
  is looked up (a format or an output is given) there is one. For an output name with no
  \<open>.\<close> the derived format is the whole name: with no format the command, and its
  rendering, is the same as with the name given as the format too. The output \<open>txt\<close> is
  rendered by the output handler in the format \<open>txt\<close>.
\<close>

theorem dotless_output_is_format:
  "(\<exists>x. extension (Some out) = Inr x) \<and>
   (truthy format \<or> truthy output \<longrightarrow> (\<exists>x. output_format format output = Inr x)) \<and>
   (of_char CHR ''.'' \<notin> set out \<longrightarrow>
      output_format None (Some out) = Inr out \<and>
      render h None (Some out) op r st = render h (Some out) (Some out) op r st \<and>
      cli h e filename lang None (Some out) st = cli h e filename lang (Some out) (Some out) st) \<and>
   output_format None (Some (ascii ''txt'')) = Inr (ascii ''txt'') \<and>
   render h None (Some (ascii ''txt'')) op r st = h (ascii ''txt'') op r st"
proof (intro conjI impI)
  show "\<exists>x. extension (Some out) = Inr x"
    by (simp add: extension_Some)
next
  assume "truthy format \<or> truthy output"
  then show "\<exists>x. output_format format output = Inr x"
    by (cases format; cases "output") (auto simp: output_format_def extension_Some)
next
  assume a: "of_char CHR ''.'' \<notin> set out"
  from extension_dotless[OF a] show "output_format None (Some out) = Inr out"
    by (simp add: output_format_def)
  show "render h None (Some out) op r st = render h (Some out) (Some out) op r st"
    by (rule render_derived[OF extension_dotless[OF a]])
  show "cli h e filename lang None (Some out) st = cli h e filename lang (Some out) (Some out) st"
    by (rule cli_render_cong) (rule render_derived[OF extension_dotless[OF a]])
next
  have d: "of_char CHR ''.'' \<notin> set (ascii ''txt'')" by (simp add: ascii_def)
  from extension_dotless[OF d] show o: "output_format None (Some (ascii ''txt'')) = Inr (ascii ''txt'')"
    by (simp add: output_format_def)
  have "truthy (Some (ascii ''txt''))" by (simp add: ascii_def)
  with o show "render h None (Some (ascii ''txt'')) op r st = h (ascii ''txt'') op r st"
    by (simp add: render_def)
qed

text \<open>The name \<open>transcript\<close>, with no format and with an empty one.\<close>

theorem dotless_output_is_format_witness:
  "of_char CHR ''.'' \<notin> set (ascii ''transcript'') \<and>
   output_format None (Some (ascii ''transcript'')) = Inr (ascii ''transcript'') \<and>
   (\<exists>x. output_format (Some []) (Some (ascii ''transcript'')) = Inr x)"
proof -
  have a: "of_char CHR ''.'' \<notin> set (ascii ''transcript'')" by (simp add: ascii_def)
  have b: "truthy (Some []) \<or> truthy (Some (ascii ''transcript''))" by (simp add: ascii_def)
  note th = dotless_output_is_format[of "ascii ''transcript''" "Some []" "Some (ascii ''transcript'')"]
  from th a b show ?thesis by blast
qed

section \<open>The checks before the transcription\<close>

lemma diagnostic_prefix: "diagnostic m = ascii ''openai transcribe: '' @ m"
  by (simp add: diagnostic_def pkg_def cmd_def ascii_def)

lemma diagnostic_missing:
  "diagnostic (ascii ''A filename is required.'') = ascii ''openai transcribe: A filename is required.''"
  by (simp add: diagnostic_prefix ascii_def)

text \<open>
  Claim C6. With no filename the command leaves through \<open>sys.exit\<close> with the message
  \<open>openai transcribe: A filename is required.\<close>, which is \<open>pkg\<close>, a space, \<open>cmd\<close>, a colon
  and a space before the message and has no line break; the exit status is 1. Only the
  model has been loaded by then: the working directory has not been asked for, no path has
  been tested, nothing has been transcribed, printed or written. The argument parser lets
  the missing filename through as \<open>None\<close>.
\<close>

theorem missing_filename_exits:
  "cli h e None lang format output st =
     (Exited (ascii ''openai transcribe: A filename is required.''),
      st\<lparr>calls := calls st @ [LoadModel (ascii ''small'')]\<rparr>) \<and>
   exit_status (fst (cli h e None lang format output st)) = 1 \<and>
   newline \<notin> set (ascii ''openai transcribe: A filename is required.'') \<and>
   ascii ''openai transcribe: A filename is required.'' =
     pkg @ ascii '' '' @ cmd @ ascii '': '' @ ascii ''A filename is required.''"
proof -
  have c: "cli h e None lang format output st =
     (Exited (ascii ''openai transcribe: A filename is required.''),
      st\<lparr>calls := calls st @ [LoadModel (ascii ''small'')]\<rparr>)"
    by (simp add: cli_def Let_def called_def diagnostic_missing)
  have n: "newline \<notin> set (ascii ''openai transcribe: A filename is required.'')"
    by (simp add: newline_def ascii_def)
  have d: "ascii ''openai transcribe: A filename is required.'' =
     pkg @ ascii '' '' @ cmd @ ascii '': '' @ ascii ''A filename is required.''"
    by (simp add: pkg_def cmd_def ascii_def)
  from c n d show ?thesis by simp
qed

section \<open>Time stamps\<close>

lemma decimal_digit: "n < 10 \<Longrightarrow> decimal n = [of_char CHR ''0'' + n]"
  by (subst decimal.simps) simp

lemma decimal_step:
  "10 \<le> n \<Longrightarrow> decimal n = decimal (n div 10) @ [of_char CHR ''0'' + n mod 10]"
  by (subst decimal.simps) simp

lemma zero_pad_0: "zero_pad 2 0 = ascii ''00''"
  by (simp add: zero_pad_def decimal_digit ascii_def)

lemma zero_pad_1: "zero_pad 2 1 = ascii ''01''"
  by (simp add: zero_pad_def decimal_digit ascii_def)

lemma decimal_500: "decimal 500 = ascii ''500''"
proof -
  have "decimal 500 = decimal 50 @ [of_char CHR ''0'' + 0]"
    using decimal_step[of 500] by simp
  also have "decimal 50 = decimal 5 @ [of_char CHR ''0'' + 0]"
    using decimal_step[of 50] by simp
  also have "decimal 5 = [of_char CHR ''0'' + 5]"
    using decimal_digit[of 5] by simp
  finally show ?thesis by (simp add: ascii_def)
qed

lemma zero_pad_500: "zero_pad 3 500 = ascii ''500''"
  by (simp add: zero_pad_def decimal_500) (simp add: ascii_def)

lemma milliseconds_61_5: "nat (round (61.5 * 1000 :: real)) = 61500"
  by simp

lemma format_timestamp_61_5:
  "format_timestamp m 61.5 = ascii ''00:01:01'' @ m # ascii ''500''"
proof -
  have f: "(61500::nat) div 3600000 = 0" "(61500::nat) mod 3600000 = 61500"
    "(61500::nat) div 60000 = 1" "(61500::nat) mod 60000 = 1500"
    "(1500::nat) div 1000 = 1" "(1500::nat) mod 1000 = 500"
    by simp_all
  have "format_timestamp m 61.5 =
      zero_pad 2 0 @ ascii '':'' @ zero_pad 2 1 @ ascii '':'' @ zero_pad 2 1 @ [m] @ zero_pad 3 500"
    unfolding format_timestamp_def Let_def milliseconds_61_5 f ..
  then show ?thesis
    unfolding zero_pad_0 zero_pad_1 zero_pad_500 by (simp add: ascii_def)
qed

text \<open>
  Claim C7. For 61.5 seconds the time stamp is \<open>00:01:01,500\<close> with the comma of SRT and
  \<open>00:01:01.500\<close> with the period of VTT.
\<close>

theorem timestamp_example:
  "srt_timestamp 61.5 = ascii ''00:01:01,500'' \<and> vtt_timestamp 61.5 = ascii ''00:01:01.500''"
  unfolding srt_timestamp_def vtt_timestamp_def format_timestamp_61_5 by (simp add: ascii_def)

section \<open>Which output is chosen\<close>

lemma render_formatted:
  "truthy format \<or> truthy output \<Longrightarrow>
     render h format output op r st =
       (case output_format format output of
          Inl err \<Rightarrow> (Raised err, r, st)
        | Inr fmt \<Rightarrow> h fmt (if truthy output then op else None) r st)"
  by (simp add: render_def)

lemma render_unformatted:
  "\<not> truthy format \<Longrightarrow> \<not> truthy output \<Longrightarrow> render h format output op r st = console_output r st"
  by (simp add: render_def)

text \<open>
  An empty format is a format given on the command line (\<open>-f ""\<close>), and it is false in the
  test of line 101: with it and no output, the segments are printed on the console and
  the output handler, which would refuse the empty format, is not called.
\<close>

theorem empty_format_takes_console_path:
  "render OutputHandler_write (Some []) None None
     \<lparr>segments = [\<lparr>seg_text = ascii ''Hi.'', seg_start = 0, seg_end = 1\<rparr>], language = None\<rparr>
     \<lparr>files = Map.empty, stdout = [], calls = []\<rparr> =
   (Returned,
    \<lparr>segments = [\<lparr>seg_text = ascii ''Hi.'', seg_start = 0, seg_end = 1\<rparr>], language = None\<rparr>,
    \<lparr>files = Map.empty, stdout = [Line (ascii ''Hi.'')], calls = []\<rparr>) \<and>
   OutputHandler_write [] None
     \<lparr>segments = [\<lparr>seg_text = ascii ''Hi.'', seg_start = 0, seg_end = 1\<rparr>], language = None\<rparr>
     \<lparr>files = Map.empty, stdout = [], calls = []\<rparr> =
   (Raised UnsupportedFormatError,
    \<lparr>segments = [\<lparr>seg_text = ascii ''Hi.'', seg_start = 0, seg_end = 1\<rparr>], language = None\<rparr>,
    \<lparr>files = Map.empty, stdout = [], calls = []\<rparr>)"
proof -
  let ?r = "\<lparr>segments = [\<lparr>seg_text = ascii ''Hi.'', seg_start = 0, seg_end = 1\<rparr>], language = None\<rparr>"
  let ?st = "\<lparr>files = Map.empty, stdout = [], calls = []\<rparr>"
  have s: "strip (ascii ''Hi.'') = ascii ''Hi.''"
    by (simp add: strip_def isspace_def ascii_def)
  have e: "ends_sentence (ascii ''Hi.'')"
    by (simp add: ends_sentence_def terminators_def ascii_def)
  have t: "trimmed (segments ?r) = [ascii ''Hi.'']"
    by (simp add: trimmed_def s)
  have ne: "[] \<notin> set (trimmed (segments ?r))"
    unfolding t by (simp add: ascii_def)
  have "sentence_groups [ascii ''Hi.''] = [ascii ''Hi.''] # sentence_groups []"
    using sentence_groups_cut[of "[]" "ascii ''Hi.''" "[]"] e by simp
  then have g: "sentence_groups (trimmed (segments ?r)) = [[ascii ''Hi.'']]"
    unfolding t by (simp add: sentence_groups_open)
  have l: "sentence_lines (segments ?r) = [Line (ascii ''Hi.'')]"
    unfolding sentence_lines_def g by simp
  have "render OutputHandler_write (Some []) None None ?r ?st = console_output ?r ?st"
    by (simp add: render_unformatted)
  also have "\<dots> = (Returned, ?r, ?st\<lparr>stdout := stdout ?st @ sentence_lines (segments ?r)\<rparr>)"
    by (rule console_output_lines[OF ne])
  finally have 1: "render OutputHandler_write (Some []) None None ?r ?st =
      (Returned, ?r, \<lparr>files = Map.empty, stdout = [Line (ascii ''Hi.'')], calls = []\<rparr>)"
    unfolding l by simp
  have 2: "OutputHandler_write [] None ?r ?st = (Raised UnsupportedFormatError, ?r, ?st)"
    by (simp add: OutputHandler_write_def formats_def ascii_def)
  from 1 2 show ?thesis by simp
qed

text \<open>
  Claim C9, amended. With a non-empty format and no output the result is handed to the
  output handler with that format and the destination \<open>None\<close>. The output handler is used
  whenever the format or the output is neither \<open>None\<close> nor empty, and the console output
  exactly when both are \<open>None\<close> or empty.
\<close>

theorem format_without_output:
  "(f \<noteq> [] \<longrightarrow> render h (Some f) None op r st = h f None r st) \<and>
   (truthy format \<or> truthy output \<longrightarrow>
      render h format output op r st =
        (case output_format format output of
           Inl err \<Rightarrow> (Raised err, r, st)
         | Inr fmt \<Rightarrow> h fmt (if truthy output then op else None) r st)) \<and>
   (\<not> truthy format \<and> \<not> truthy output \<longrightarrow>
      render h format output op r st = console_output r st)"
  by (simp add: render_formatted render_unformatted) (simp add: render_def output_format_def)

text \<open>The format \<open>srt\<close> with no output, and the empty format with no output.\<close>

theorem format_without_output_witness:
  "render OutputHandler_write (Some (ascii ''srt'')) None None
     \<lparr>segments = [], language = None\<rparr> \<lparr>files = Map.empty, stdout = [], calls = []\<rparr> =
   (Returned, \<lparr>segments = [], language = None\<rparr>,
    \<lparr>files = Map.empty, stdout = [Rendered (ascii ''srt'') \<lparr>segments = [], language = None\<rparr>],
     calls = []\<rparr>) \<and>
   render OutputHandler_write (Some []) None None
     \<lparr>segments = [], language = None\<rparr> \<lparr>files = Map.empty, stdout = [], calls = []\<rparr> =
   console_output \<lparr>segments = [], language = None\<rparr> \<lparr>files = Map.empty, stdout = [], calls = []\<rparr>"
proof -
  let ?r = "\<lparr>segments = [], language = None\<rparr>"
  let ?st = "\<lparr>files = Map.empty, stdout = [], calls = []\<rparr>"
  have a: "ascii ''srt'' \<noteq> []" by (simp add: ascii_def)
  have b: "\<not> truthy (Some []) \<and> \<not> truthy None" by simp
  have c: "truthy (Some (ascii ''srt'')) \<or> truthy None" by (simp add: ascii_def)
  note th = format_without_output[of "ascii ''srt''" OutputHandler_write None ?r ?st "Some []" None]
  note th' = format_without_output[of "ascii ''srt''" OutputHandler_write None ?r ?st "Some (ascii ''srt'')" None]
  from th a have 1: "render OutputHandler_write (Some (ascii ''srt'')) None None ?r ?st =
      OutputHandler_write (ascii ''srt'') None ?r ?st"
    by blast
  from th b have 2: "render OutputHandler_write (Some []) None None ?r ?st = console_output ?r ?st"
    by blast
  from th' c have 3: "render OutputHandler_write (Some (ascii ''srt'')) None None ?r ?st =
        (case output_format (Some (ascii ''srt'')) None of
           Inl err \<Rightarrow> (Raised err, ?r, ?st)
         | Inr fmt \<Rightarrow> OutputHandler_write fmt (if truthy None then None else None) ?r ?st)"
    by blast
  have 4: "OutputHandler_write (ascii ''srt'') None ?r ?st =
      (Returned, ?r, \<lparr>files = Map.empty, stdout = [Rendered (ascii ''srt'') ?r], calls = []\<rparr>)"
    by (simp add: OutputHandler_write_def formats_def ascii_def)
  from 1 2 3 4 show ?thesis by simp
qed

section \<open>The output file that exists already\<close>

lemma called_simps:
  "files (called c st) = files st" "stdout (called c st) = stdout st"
  "calls (called c st) = calls st @ [c]" "path_exists (called c st) p = path_exists st p"
  by (simp_all add: called_def path_exists_def)

lemma transcriptions_called:
  "transcriptions (called c st) = transcriptions st @ (if is_transcribe c then [c] else [])"
  by (simp add: transcriptions_def called_def)

lemma check_output_exists:
  assumes "out \<noteq> []" and "path_exists st (path_join (cmd_cwd e) out)"
  shows "check_output e (Some out) st =
           (Inl (diagnostic (ascii ''Output file already exists: '' @ out)),
            called (PathExists (path_join (cmd_cwd e) out)) (called GetCmdCwd st))"
  using assms by (simp add: check_output_def Let_def called_simps)

lemma check_output_free:
  assumes "out \<noteq> []" and "\<not> path_exists st (path_join (cmd_cwd e) out)"
  shows "check_output e (Some out) st =
           (Inr (Some (path_join (cmd_cwd e) out)),
            called (PathExists (path_join (cmd_cwd e) out)) (called GetCmdCwd st))"
  using assms by (simp add: check_output_def Let_def called_simps)

lemma check_output_absent:
  "\<not> truthy output \<Longrightarrow> check_output e output st = (Inr None, st)"
  by (simp add: check_output_def)

lemma cli_missing:
  "\<not> truthy filename \<Longrightarrow>
     cli h e filename lang format output st =
       (Exited (diagnostic (ascii ''A filename is required.'')), called (LoadModel (ascii ''small'')) st)"
  by (cases filename) (simp_all add: cli_def Let_def)

lemma cli_not_found:
  assumes "fname \<noteq> []" and "\<not> path_exists st (path_join (cmd_cwd e) fname)"
  shows "cli h e (Some fname) lang format output st =
       (Exited (diagnostic (ascii ''File not found: '' @ path_join (cmd_cwd e) fname)),
        called (PathExists (path_join (cmd_cwd e) fname))
          (called GetCmdCwd (called (LoadModel (ascii ''small'')) st)))"
  using assms by (simp add: cli_def Let_def called_simps)

lemma cli_checked:
  assumes "fname \<noteq> []" and "path_exists st (path_join (cmd_cwd e) fname)"
  shows "cli h e (Some fname) lang format output st =
       (case check_output e output
               (called (PathExists (path_join (cmd_cwd e) fname))
                 (called GetCmdCwd (called (LoadModel (ascii ''small'')) st))) of
          (Inl message, st') \<Rightarrow> (Exited message, st')
        | (Inr output_path, st') \<Rightarrow>
            (case render h format output output_path
                    (transcribe e (quote (path_join (cmd_cwd e) fname)) lang)
                    (called (Transcribe (quote (path_join (cmd_cwd e) fname)) lang) st') of
               (oc, result', st'') \<Rightarrow> (oc, st'')))"
  using assms by (simp add: cli_def Let_def called_simps split: prod.splits sum.splits)

lemma cli_output_exists:
  assumes "fname \<noteq> []" and "path_exists st (path_join (cmd_cwd e) fname)"
    and "out \<noteq> []" and "path_exists st (path_join (cmd_cwd e) out)"
  shows "cli h e (Some fname) lang format (Some out) st =
       (Exited (diagnostic (ascii ''Output file already exists: '' @ out)),
        called (PathExists (path_join (cmd_cwd e) out))
          (called GetCmdCwd
            (called (PathExists (path_join (cmd_cwd e) fname))
              (called GetCmdCwd (called (LoadModel (ascii ''small'')) st)))))"
  by (simp add: cli_checked[OF assms(1,2)] check_output_exists[OF assms(3)] called_simps assms(4))

lemma exited_effects:
  assumes "out \<noteq> []" and "path_exists st (path_join (cmd_cwd e) out)"
  shows "\<exists>m st'. cli h e filename lang format (Some out) st = (Exited (diagnostic m), st') \<and>
           files st' = files st \<and> stdout st' = stdout st \<and> transcriptions st' = transcriptions st \<and>
           (m = ascii ''A filename is required.'' \<or>
            (\<exists>fname. filename = Some fname \<and>
               m = ascii ''File not found: '' @ path_join (cmd_cwd e) fname) \<or>
            m = ascii ''Output file already exists: '' @ out)"
proof (cases "truthy filename")
  case False
  then show ?thesis
    by (fastforce simp: cli_missing called_simps transcriptions_called)
next
  case True
  then obtain fname where f: "filename = Some fname" "fname \<noteq> []"
    by (cases filename) auto
  show ?thesis
  proof (cases "path_exists st (path_join (cmd_cwd e) fname)")
    case False
    then show ?thesis
      by (fastforce simp: f cli_not_found called_simps transcriptions_called)
  next
    case True
    then show ?thesis
      by (fastforce simp: f cli_output_exists assms called_simps transcriptions_called)
  qed
qed

lemma console_output_no_segments:
  "segments r = [] \<Longrightarrow> console_output r st = (Returned, r, st)"
  by (subst console_output_def, subst console_loop.simps) simp

text \<open>Where a line break in a message can come from: the names it is built from.\<close>

lemma path_join_one_line:
  "newline \<notin> set a \<Longrightarrow> newline \<notin> set b \<Longrightarrow> newline \<notin> set (path_join a b)"
  by (auto simp: path_join_def newline_def)

lemma diagnostic_one_line: "newline \<in> set (diagnostic m) \<longleftrightarrow> newline \<in> set m"
  by (simp add: diagnostic_prefix newline_def ascii_def)

lemma output_exists_message_one_line:
  "newline \<in> set (ascii ''openai transcribe: Output file already exists: '' @ out) \<longleftrightarrow>
     newline \<in> set out"
  by (simp add: newline_def ascii_def)

lemma exited_one_line:
  assumes "out \<noteq> []" and "path_exists st (path_join (cmd_cwd e) out)"
    and "newline \<notin> set (cmd_cwd e)" and "newline \<notin> set out"
    and "\<forall>fname. filename = Some fname \<longrightarrow> newline \<notin> set fname"
    and "fst (cli h e filename lang format (Some out) st) = Exited msg"
  shows "newline \<notin> set msg"
proof -
  from exited_effects[OF assms(1,2), of h filename lang format] assms(6)
  obtain m where msg: "msg = diagnostic m"
    and m: "m = ascii ''A filename is required.'' \<or>
            (\<exists>fname. filename = Some fname \<and>
               m = ascii ''File not found: '' @ path_join (cmd_cwd e) fname) \<or>
            m = ascii ''Output file already exists: '' @ out"
    by auto
  from m have "newline \<notin> set m"
  proof (elim disjE exE conjE)
    assume "m = ascii ''A filename is required.''"
    then show ?thesis by (simp add: newline_def ascii_def)
  next
    fix fname
    assume f: "filename = Some fname" and "m = ascii ''File not found: '' @ path_join (cmd_cwd e) fname"
    moreover from f assms(5) have "newline \<notin> set fname" by simp
    then have "newline \<notin> set (path_join (cmd_cwd e) fname)"
      using assms(3) by (simp add: path_join_one_line)
    ultimately show ?thesis by (simp add: newline_def ascii_def)
  next
    assume "m = ascii ''Output file already exists: '' @ out"
    with assms(4) show ?thesis by (simp add: newline_def ascii_def)
  qed
  then show ?thesis by (simp add: msg diagnostic_one_line)
qed

text \<open>
  The claim as it is written fails in two ways. An empty output (\<open>-o ""\<close>) is false at
  line 90: no path is bound and none is tested, although joining it to the working
  directory names the directory itself, which exists; the file is transcribed and the
  command returns. And the message repeats the output as it was given: for the existing
  file \<open>a\<close>, line break, \<open>b\<close> it holds the line break.
\<close>

theorem existing_output_counterexample:
  "path_exists
     \<lparr>files = [ascii ''/w/'' \<mapsto> Directory, ascii ''/w/a.wav'' \<mapsto> Bytes []], stdout = [], calls = []\<rparr>
     (path_join (cmd_cwd \<lparr>cmd_cwd = ascii ''/w'', transcribe = (\<lambda>p l. \<lparr>segments = [], language = l\<rparr>)\<rparr>) []) \<and>
   cli OutputHandler_write
     \<lparr>cmd_cwd = ascii ''/w'', transcribe = (\<lambda>p l. \<lparr>segments = [], language = l\<rparr>)\<rparr>
     (Some (ascii ''a.wav'')) None None (Some [])
     \<lparr>files = [ascii ''/w/'' \<mapsto> Directory, ascii ''/w/a.wav'' \<mapsto> Bytes []], stdout = [], calls = []\<rparr> =
   (Returned,
    \<lparr>files = [ascii ''/w/'' \<mapsto> Directory, ascii ''/w/a.wav'' \<mapsto> Bytes []], stdout = [],
     calls = [LoadModel (ascii ''small''), GetCmdCwd, PathExists (ascii ''/w/a.wav''),
              Transcribe (ascii ''/w/a.wav'') None]\<rparr>) \<and>
   path_exists
     \<lparr>files = [ascii [CHR ''/'', CHR ''w'', CHR ''/'', CHR ''a'', CHR 0x0A, CHR ''b''] \<mapsto> Bytes [],
               ascii ''/w/a.wav'' \<mapsto> Bytes []], stdout = [], calls = []\<rparr>
     (path_join (cmd_cwd \<lparr>cmd_cwd = ascii ''/w'', transcribe = (\<lambda>p l. \<lparr>segments = [], language = l\<rparr>)\<rparr>)
        (ascii [CHR ''a'', CHR 0x0A, CHR ''b''])) \<and>
   fst (cli OutputHandler_write
     \<lparr>cmd_cwd = ascii ''/w'', transcribe = (\<lambda>p l. \<lparr>segments = [], language = l\<rparr>)\<rparr>
     (Some (ascii ''a.wav'')) None None (Some (ascii [CHR ''a'', CHR 0x0A, CHR ''b'']))
     \<lparr>files = [ascii [CHR ''/'', CHR ''w'', CHR ''/'', CHR ''a'', CHR 0x0A, CHR ''b''] \<mapsto> Bytes [],
               ascii ''/w/a.wav'' \<mapsto> Bytes []], stdout = [], calls = []\<rparr>) =
   Exited (ascii ''openai transcribe: Output file already exists: '' @
           ascii [CHR ''a'', CHR 0x0A, CHR ''b'']) \<and>
   newline \<in> set (ascii ''openai transcribe: Output file already exists: '' @
                    ascii [CHR ''a'', CHR 0x0A, CHR ''b''])"
proof -
  let ?e = "\<lparr>cmd_cwd = ascii ''/w'', transcribe = (\<lambda>p l. \<lparr>segments = [], language = l\<rparr>)\<rparr>"
  let ?st = "\<lparr>files = [ascii ''/w/'' \<mapsto> Directory, ascii ''/w/a.wav'' \<mapsto> Bytes []], stdout = [], calls = []\<rparr>"
  let ?nm = "ascii [CHR ''a'', CHR 0x0A, CHR ''b'']"
  let ?st' = "\<lparr>files = [ascii [CHR ''/'', CHR ''w'', CHR ''/'', CHR ''a'', CHR 0x0A, CHR ''b''] \<mapsto> Bytes [],
               ascii ''/w/a.wav'' \<mapsto> Bytes []], stdout = [], calls = []\<rparr>"
  have j: "path_join (cmd_cwd ?e) (ascii ''a.wav'') = ascii ''/w/a.wav''"
    by (simp add: path_join_def ascii_def)
  have j0: "path_join (cmd_cwd ?e) [] = ascii ''/w/''"
    by (simp add: path_join_def ascii_def)
  have x: "path_exists ?st (ascii ''/w/a.wav'')"
    by (simp add: path_exists_def)
  have x0: "path_exists ?st (ascii ''/w/'')"
    by (simp add: path_exists_def ascii_def)
  have q: "quote (ascii ''/w/a.wav'') = ascii ''/w/a.wav''"
    by (simp add: quote_def safe_char_def ascii_def)
  have n: "ascii ''a.wav'' \<noteq> []" by (simp add: ascii_def)
  from x have x': "path_exists ?st (path_join (cmd_cwd ?e) (ascii ''a.wav''))"
    by (simp only: j)
  have "cli OutputHandler_write ?e (Some (ascii ''a.wav'')) None None (Some []) ?st =
      (Returned, called (Transcribe (ascii ''/w/a.wav'') None)
        (called (PathExists (ascii ''/w/a.wav''))
          (called GetCmdCwd (called (LoadModel (ascii ''small'')) ?st))))"
    unfolding cli_checked[OF n x'] j q
    by (simp add: check_output_absent render_unformatted console_output_no_segments)
  then have c: "cli OutputHandler_write ?e (Some (ascii ''a.wav'')) None None (Some []) ?st =
      (Returned, \<lparr>files = [ascii ''/w/'' \<mapsto> Directory, ascii ''/w/a.wav'' \<mapsto> Bytes []], stdout = [],
     calls = [LoadModel (ascii ''small''), GetCmdCwd, PathExists (ascii ''/w/a.wav''),
              Transcribe (ascii ''/w/a.wav'') None]\<rparr>)"
    by (simp add: called_def)
  from x0 have c0: "path_exists ?st (path_join (cmd_cwd ?e) [])"
    by (simp only: j0)
  have y: "path_exists ?st' (path_join (cmd_cwd ?e) (ascii ''a.wav''))"
    by (simp add: path_exists_def path_join_def ascii_def)
  have y': "path_exists ?st' (path_join (cmd_cwd ?e) ?nm)"
    by (simp add: path_exists_def path_join_def ascii_def)
  have nn: "?nm \<noteq> []" by (simp add: ascii_def)
  have d: "fst (cli OutputHandler_write ?e (Some (ascii ''a.wav'')) None None (Some ?nm) ?st') =
      Exited (ascii ''openai transcribe: Output file already exists: '' @ ?nm)"
    unfolding cli_output_exists[OF n y nn y'] diagnostic_prefix
    by (simp add: ascii_def)
  have l: "newline \<in> set (ascii ''openai transcribe: Output file already exists: '' @ ?nm)"
    by (simp add: newline_def ascii_def)
  from c0 c y' d l show ?thesis by blast
qed

text \<open>
  Claim C5, amended. An output path is requested when \<open>output\<close> is not empty, which is when
  line 91 binds \<open>output_path\<close>. When that path exists before the run, the command leaves
  through \<open>sys.exit\<close> with status 1 and one message that starts with \<open>openai transcribe: \<close>.
  The message has no line break when the working directory, the filename and the output
  have none. When the filename is given and found, the message is
  \<open>Output file already exists: \<close> and the output as it was given, with a line break exactly
  when the output has one. Nothing has been transcribed then, the output handler has not
  been called, and the files, the existing one among them, and the standard output are as
  before.
\<close>

theorem existing_output_exits:
  "out \<noteq> [] \<and> path_exists st (path_join (cmd_cwd e) out) \<longrightarrow>
     (\<exists>m. fst (cli h e filename lang format (Some out) st) = Exited (ascii ''openai transcribe: '' @ m) \<and>
          (newline \<notin> set (cmd_cwd e) \<and> newline \<notin> set out \<and>
           (\<forall>fname. filename = Some fname \<longrightarrow> newline \<notin> set fname) \<longrightarrow>
             newline \<notin> set (ascii ''openai transcribe: '' @ m))) \<and>
     exit_status (fst (cli h e filename lang format (Some out) st)) = 1 \<and>
     files (snd (cli h e filename lang format (Some out) st)) = files st \<and>
     stdout (snd (cli h e filename lang format (Some out) st)) = stdout st \<and>
     transcriptions (snd (cli h e filename lang format (Some out) st)) = transcriptions st \<and>
     (\<forall>fname. filename = Some fname \<and> fname \<noteq> [] \<and> path_exists st (path_join (cmd_cwd e) fname) \<longrightarrow>
        fst (cli h e filename lang format (Some out) st) =
          Exited (ascii ''openai transcribe: Output file already exists: '' @ out) \<and>
        (newline \<in> set (ascii ''openai transcribe: Output file already exists: '' @ out) \<longleftrightarrow>
           newline \<in> set out))"
proof (intro impI)
  assume a: "out \<noteq> [] \<and> path_exists st (path_join (cmd_cwd e) out)"
  then have a1: "out \<noteq> []" and a2: "path_exists st (path_join (cmd_cwd e) out)"
    by simp_all
  from exited_effects[OF a1 a2, of h filename lang format]
  obtain m st' where c: "cli h e filename lang format (Some out) st = (Exited (diagnostic m), st')"
    and e: "files st' = files st" "stdout st' = stdout st" "transcriptions st' = transcriptions st"
    by blast
  have p: "diagnostic (ascii ''Output file already exists: '' @ out) =
      ascii ''openai transcribe: Output file already exists: '' @ out"
    by (simp add: diagnostic_prefix ascii_def)
  have last: "\<forall>fname. filename = Some fname \<and> fname \<noteq> [] \<and> path_exists st (path_join (cmd_cwd e) fname) \<longrightarrow>
        fst (cli h e filename lang format (Some out) st) =
          Exited (ascii ''openai transcribe: Output file already exists: '' @ out) \<and>
        (newline \<in> set (ascii ''openai transcribe: Output file already exists: '' @ out) \<longleftrightarrow>
           newline \<in> set out)"
    using output_exists_message_one_line[of out]
    by (simp add: cli_output_exists[OF _ _ a1 a2] p del: set_append)
  from c have f: "fst (cli h e filename lang format (Some out) st) = Exited (ascii ''openai transcribe: '' @ m)"
    by (simp add: diagnostic_prefix)
  have one: "newline \<notin> set (cmd_cwd e) \<and> newline \<notin> set out \<and>
           (\<forall>fname. filename = Some fname \<longrightarrow> newline \<notin> set fname) \<longrightarrow>
             newline \<notin> set (ascii ''openai transcribe: '' @ m)"
    using exited_one_line[OF a1 a2 _ _ _ f] by blast
  from f one have first: "\<exists>m. fst (cli h e filename lang format (Some out) st) = Exited (ascii ''openai transcribe: '' @ m) \<and>
          (newline \<notin> set (cmd_cwd e) \<and> newline \<notin> set out \<and>
           (\<forall>fname. filename = Some fname \<longrightarrow> newline \<notin> set fname) \<longrightarrow>
             newline \<notin> set (ascii ''openai transcribe: '' @ m))"
    by blast
  have st: "exit_status (fst (cli h e filename lang format (Some out) st)) = 1"
    by (simp add: c)
  from c e have ef: "files (snd (cli h e filename lang format (Some out) st)) = files st"
    "stdout (snd (cli h e filename lang format (Some out) st)) = stdout st"
    "transcriptions (snd (cli h e filename lang format (Some out) st)) = transcriptions st"
    by simp_all
  from first st ef last
  show "(\<exists>m. fst (cli h e filename lang format (Some out) st) = Exited (ascii ''openai transcribe: '' @ m) \<and>
          (newline \<notin> set (cmd_cwd e) \<and> newline \<notin> set out \<and>
           (\<forall>fname. filename = Some fname \<longrightarrow> newline \<notin> set fname) \<longrightarrow>
             newline \<notin> set (ascii ''openai transcribe: '' @ m))) \<and>
     exit_status (fst (cli h e filename lang format (Some out) st)) = 1 \<and>
     files (snd (cli h e filename lang format (Some out) st)) = files st \<and>
     stdout (snd (cli h e filename lang format (Some out) st)) = stdout st \<and>
     transcriptions (snd (cli h e filename lang format (Some out) st)) = transcriptions st \<and>
     (\<forall>fname. filename = Some fname \<and> fname \<noteq> [] \<and> path_exists st (path_join (cmd_cwd e) fname) \<longrightarrow>
        fst (cli h e filename lang format (Some out) st) =
          Exited (ascii ''openai transcribe: Output file already exists: '' @ out) \<and>
        (newline \<in> set (ascii ''openai transcribe: Output file already exists: '' @ out) \<longleftrightarrow>
           newline \<in> set out))"
    by blast
qed

text \<open>The output \<open>out.txt\<close> in a directory that holds it already.\<close>

theorem existing_output_exits_witness:
  "(let e = \<lparr>cmd_cwd = ascii ''/w'', transcribe = (\<lambda>p l. \<lparr>segments = [], language = l\<rparr>)\<rparr>;
        st = \<lparr>files = [ascii ''/w/out.txt'' \<mapsto> Bytes (ascii ''kept''), ascii ''/w/a.wav'' \<mapsto> Bytes []],
               stdout = [], calls = []\<rparr>
    in ascii ''out.txt'' \<noteq> [] \<and>
       path_exists st (path_join (cmd_cwd e) (ascii ''out.txt'')) \<and>
       path_exists st (path_join (cmd_cwd e) (ascii ''a.wav'')) \<and>
       newline \<notin> set (cmd_cwd e) \<and> newline \<notin> set (ascii ''out.txt'') \<and>
       newline \<notin> set (ascii ''a.wav'') \<and>
       fst (cli OutputHandler_write e (Some (ascii ''a.wav'')) None None (Some (ascii ''out.txt'')) st) =
         Exited (ascii ''openai transcribe: Output file already exists: out.txt'') \<and>
       newline \<notin> set (ascii ''openai transcribe: Output file already exists: out.txt'') \<and>
       exit_status (fst (cli OutputHandler_write e (Some (ascii ''a.wav'')) None None
                           (Some (ascii ''out.txt'')) st)) = 1 \<and>
       files (snd (cli OutputHandler_write e (Some (ascii ''a.wav'')) None None (Some (ascii ''out.txt'')) st)) =
         files st \<and>
       transcriptions (snd (cli OutputHandler_write e (Some (ascii ''a.wav'')) None None (Some (ascii ''out.txt'')) st)) = [])"
proof -
  let ?e = "\<lparr>cmd_cwd = ascii ''/w'', transcribe = (\<lambda>p l. \<lparr>segments = [], language = l\<rparr>)\<rparr>"
  let ?st = "\<lparr>files = [ascii ''/w/out.txt'' \<mapsto> Bytes (ascii ''kept''), ascii ''/w/a.wav'' \<mapsto> Bytes []],
               stdout = [], calls = []\<rparr>"
  let ?c = "cli OutputHandler_write ?e (Some (ascii ''a.wav'')) None None (Some (ascii ''out.txt'')) ?st"
  have a: "path_exists ?st (path_join (cmd_cwd ?e) (ascii ''out.txt''))"
    by (simp add: path_exists_def path_join_def ascii_def)
  have b: "path_exists ?st (path_join (cmd_cwd ?e) (ascii ''a.wav''))"
    by (simp add: path_exists_def path_join_def ascii_def)
  have n: "ascii ''out.txt'' \<noteq> []" "ascii ''a.wav'' \<noteq> []"
    by (simp_all add: ascii_def)
  have l: "newline \<notin> set (cmd_cwd ?e)" "newline \<notin> set (ascii ''out.txt'')"
    "newline \<notin> set (ascii ''a.wav'')"
    by (simp_all add: newline_def ascii_def)
  have m: "ascii ''openai transcribe: Output file already exists: '' @ ascii ''out.txt'' =
      ascii ''openai transcribe: Output file already exists: out.txt''"
    by (simp add: ascii_def)
  have t: "transcriptions ?st = []"
    by (simp add: transcriptions_def)
  note th = existing_output_exits[of "ascii ''out.txt''" ?st ?e OutputHandler_write
      "Some (ascii ''a.wav'')" None None]
  from th a b n have 1:
    "fst ?c = Exited (ascii ''openai transcribe: Output file already exists: '' @ ascii ''out.txt'')"
    "exit_status (fst ?c) = 1"
    "files (snd ?c) = files ?st"
    "transcriptions (snd ?c) = transcriptions ?st"
    by blast+
  from th a n l obtain m' where
    2: "fst ?c = Exited (ascii ''openai transcribe: '' @ m')"
    and 3: "newline \<notin> set (ascii ''openai transcribe: '' @ m')"
    by auto
  from 1(1) 2 3 have 4: "newline \<notin> set (ascii ''openai transcribe: Output file already exists: '' @ ascii ''out.txt'')"
    by simp
  from a b n l 1 4 show ?thesis
    unfolding Let_def m t by blast
qed

section \<open>Formats the output handler does not know\<close>

lemma OutputHandler_write_unsupported:
  "fmt \<notin> set formats \<Longrightarrow>
     OutputHandler_write fmt destination r st = (Raised UnsupportedFormatError, r, st)"
  by (simp add: OutputHandler_write_def)

lemma render_unsupported_extension:
  assumes "\<not> truthy format" and "out \<noteq> []" and "extension (Some out) = Inr x"
    and "x \<notin> set formats"
  shows "render OutputHandler_write format (Some out) op r st = (Raised UnsupportedFormatError, r, st)"
proof -
  from assms(1,3) have "output_format format (Some out) = Inr x"
    by (cases format) (simp_all add: output_format_def)
  with assms(2,4) show ?thesis
    by (simp add: render_def OutputHandler_write_unsupported)
qed

lemma render_unsupported_format:
  assumes "f \<noteq> []" and "f \<notin> set formats"
  shows "render OutputHandler_write (Some f) output op r st = (Raised UnsupportedFormatError, r, st)"
  using assms by (simp add: render_def output_format_def OutputHandler_write_unsupported)

lemma ext_mp3: "extension (Some (ascii ''out.mp3'')) = Inr (ascii ''mp3'')"
proof -
  have "of_char CHR ''.'' \<notin> set (ascii ''mp3'')" by (simp add: ascii_def)
  from extension_after_dot[OF this, of "ascii ''out''"] show ?thesis
    by (simp add: ascii_def)
qed

lemma mp3_unsupported: "ascii ''mp3'' \<notin> set formats"
  by (simp add: formats_def ascii_def)

lemma cli_out_mp3:
  assumes "fname \<noteq> []" and "path_exists st (path_join (cmd_cwd e) fname)"
    and "\<not> path_exists st (path_join (cmd_cwd e) (ascii ''out.mp3''))"
  shows "cli OutputHandler_write e (Some fname) lang None (Some (ascii ''out.mp3'')) st =
      (Raised UnsupportedFormatError,
       called (Transcribe (quote (path_join (cmd_cwd e) fname)) lang)
        (called (PathExists (path_join (cmd_cwd e) (ascii ''out.mp3'')))
          (called GetCmdCwd
            (called (PathExists (path_join (cmd_cwd e) fname))
              (called GetCmdCwd (called (LoadModel (ascii ''small'')) st))))))"
proof -
  have n: "ascii ''out.mp3'' \<noteq> []" by (simp add: ascii_def)
  have t: "\<not> truthy None" by simp
  show ?thesis
    unfolding cli_checked[OF assms(1,2)]
    by (simp add: check_output_free[OF n] called_simps assms(3)
        render_unsupported_extension[OF t n ext_mp3 mp3_unsupported])
qed

text \<open>
  The empty string is not one of the five formats, but as a format it is false and counts
  as no format at lines 101 and 102: with the output \<open>out.txt\<close> the result is written in the
  format \<open>txt\<close>, and with no output it goes to the console. No error is raised.
\<close>

theorem empty_format_is_not_refused:
  "[] \<notin> set formats \<and>
   render OutputHandler_write (Some []) (Some (ascii ''out.txt'')) (Some (ascii ''/w/out.txt''))
     \<lparr>segments = [], language = None\<rparr> \<lparr>files = Map.empty, stdout = [], calls = []\<rparr> =
   (Returned, \<lparr>segments = [], language = None\<rparr>,
    \<lparr>files = [ascii ''/w/out.txt'' \<mapsto> Rendering (ascii ''txt'') \<lparr>segments = [], language = None\<rparr>],
     stdout = [], calls = []\<rparr>) \<and>
   render OutputHandler_write (Some []) None None
     \<lparr>segments = [], language = None\<rparr> \<lparr>files = Map.empty, stdout = [], calls = []\<rparr> =
   (Returned, \<lparr>segments = [], language = None\<rparr>, \<lparr>files = Map.empty, stdout = [], calls = []\<rparr>)"
proof -
  have a: "[] \<notin> set formats"
    by (simp add: formats_def ascii_def)
  have e: "extension (Some (ascii ''out.txt'')) = Inr (ascii ''txt'')"
  proof -
    have "of_char CHR ''.'' \<notin> set (ascii ''txt'')" by (simp add: ascii_def)
    from extension_after_dot[OF this, of "ascii ''out''"] show ?thesis
      by (simp add: ascii_def)
  qed
  have t: "truthy (Some (ascii ''out.txt''))" by (simp add: ascii_def)
  have s: "ascii ''txt'' \<in> set formats" by (simp add: formats_def)
  have "render OutputHandler_write (Some []) (Some (ascii ''out.txt'')) (Some (ascii ''/w/out.txt''))
     \<lparr>segments = [], language = None\<rparr> \<lparr>files = Map.empty, stdout = [], calls = []\<rparr> =
     OutputHandler_write (ascii ''txt'') (Some (ascii ''/w/out.txt''))
       \<lparr>segments = [], language = None\<rparr> \<lparr>files = Map.empty, stdout = [], calls = []\<rparr>"
    using t by (simp add: render_def output_format_def e)
  then have b: "render OutputHandler_write (Some []) (Some (ascii ''out.txt'')) (Some (ascii ''/w/out.txt''))
     \<lparr>segments = [], language = None\<rparr> \<lparr>files = Map.empty, stdout = [], calls = []\<rparr> =
   (Returned, \<lparr>segments = [], language = None\<rparr>,
    \<lparr>files = [ascii ''/w/out.txt'' \<mapsto> Rendering (ascii ''txt'') \<lparr>segments = [], language = None\<rparr>],
     stdout = [], calls = []\<rparr>)"
    using s by (simp add: OutputHandler_write_def)
  have c: "render OutputHandler_write (Some []) None None
     \<lparr>segments = [], language = None\<rparr> \<lparr>files = Map.empty, stdout = [], calls = []\<rparr> =
   (Returned, \<lparr>segments = [], language = None\<rparr>, \<lparr>files = Map.empty, stdout = [], calls = []\<rparr>)"
    by (simp add: render_unformatted console_output_no_segments)
  from a b c show ?thesis by blast
qed

text \<open>
  Claim C4, amended. The output handler fails with \<open>UnsupportedFormatError\<close> on every format
  that is not one of \<open>txt\<close>, \<open>json\<close>, \<open>srt\<close>, \<open>tsv\<close>, \<open>vtt\<close>. So does the rendering with no
  format, or an empty one, and a non-empty output whose text after the last \<open>.\<close> is not
  one of the five; and the rendering with a non-empty format that is not one of the five.
  The command with the output \<open>out.mp3\<close> and no format, once the filename is found and the
  output does not exist yet, ends with that error, and has written and printed nothing.
\<close>

theorem unsupported_format_fails:
  "(fmt \<notin> set formats \<longrightarrow>
      OutputHandler_write fmt destination r st = (Raised UnsupportedFormatError, r, st)) \<and>
   (\<not> truthy format \<and> out \<noteq> [] \<and> extension (Some out) = Inr x \<and> x \<notin> set formats \<longrightarrow>
      render OutputHandler_write format (Some out) op r st = (Raised UnsupportedFormatError, r, st)) \<and>
   (f \<noteq> [] \<and> f \<notin> set formats \<longrightarrow>
      render OutputHandler_write (Some f) output op r st = (Raised UnsupportedFormatError, r, st)) \<and>
   (fname \<noteq> [] \<and> path_exists st (path_join (cmd_cwd e) fname) \<and>
    \<not> path_exists st (path_join (cmd_cwd e) (ascii ''out.mp3'')) \<longrightarrow>
      fst (cli OutputHandler_write e (Some fname) lang None (Some (ascii ''out.mp3'')) st) =
        Raised UnsupportedFormatError \<and>
      files (snd (cli OutputHandler_write e (Some fname) lang None (Some (ascii ''out.mp3'')) st)) =
        files st \<and>
      stdout (snd (cli OutputHandler_write e (Some fname) lang None (Some (ascii ''out.mp3'')) st)) =
        stdout st)"
proof (intro conjI impI)
  assume "fmt \<notin> set formats"
  then show "OutputHandler_write fmt destination r st = (Raised UnsupportedFormatError, r, st)"
    by (rule OutputHandler_write_unsupported)
next
  assume "\<not> truthy format \<and> out \<noteq> [] \<and> extension (Some out) = Inr x \<and> x \<notin> set formats"
  then show "render OutputHandler_write format (Some out) op r st = (Raised UnsupportedFormatError, r, st)"
    by (simp add: render_unsupported_extension)
next
  assume "f \<noteq> [] \<and> f \<notin> set formats"
  then show "render OutputHandler_write (Some f) output op r st = (Raised UnsupportedFormatError, r, st)"
    by (simp add: render_unsupported_format)
next
  assume a: "fname \<noteq> [] \<and> path_exists st (path_join (cmd_cwd e) fname) \<and>
    \<not> path_exists st (path_join (cmd_cwd e) (ascii ''out.mp3''))"
  then have c: "cli OutputHandler_write e (Some fname) lang None (Some (ascii ''out.mp3'')) st =
      (Raised UnsupportedFormatError,
       called (Transcribe (quote (path_join (cmd_cwd e) fname)) lang)
        (called (PathExists (path_join (cmd_cwd e) (ascii ''out.mp3'')))
          (called GetCmdCwd
            (called (PathExists (path_join (cmd_cwd e) fname))
              (called GetCmdCwd (called (LoadModel (ascii ''small'')) st))))))"
    by (simp add: cli_out_mp3)
  show "fst (cli OutputHandler_write e (Some fname) lang None (Some (ascii ''out.mp3'')) st) =
        Raised UnsupportedFormatError"
    by (simp add: c)
  show "files (snd (cli OutputHandler_write e (Some fname) lang None (Some (ascii ''out.mp3'')) st)) =
        files st"
    by (simp add: c called_simps)
  show "stdout (snd (cli OutputHandler_write e (Some fname) lang None (Some (ascii ''out.mp3'')) st)) =
        stdout st"
    by (simp add: c called_simps)
qed

text \<open>The format \<open>mp3\<close>, given or derived from \<open>out.mp3\<close>.\<close>

theorem unsupported_format_fails_witness:
  "(let e = \<lparr>cmd_cwd = ascii ''/w'', transcribe = (\<lambda>p l. \<lparr>segments = [], language = l\<rparr>)\<rparr>;
        st = \<lparr>files = [ascii ''/w/a.wav'' \<mapsto> Bytes []], stdout = [], calls = []\<rparr>;
        r = \<lparr>segments = [], language = None\<rparr>
    in OutputHandler_write (ascii ''mp3'') None r st = (Raised UnsupportedFormatError, r, st) \<and>
       render OutputHandler_write None (Some (ascii ''out.mp3'')) (Some (ascii ''/w/out.mp3'')) r st =
         (Raised UnsupportedFormatError, r, st) \<and>
       render OutputHandler_write (Some (ascii ''mp3'')) None None r st =
         (Raised UnsupportedFormatError, r, st) \<and>
       fst (cli OutputHandler_write e (Some (ascii ''a.wav'')) None None (Some (ascii ''out.mp3'')) st) =
         Raised UnsupportedFormatError \<and>
       files (snd (cli OutputHandler_write e (Some (ascii ''a.wav'')) None None (Some (ascii ''out.mp3'')) st)) =
         files st)"
proof -
  let ?e = "\<lparr>cmd_cwd = ascii ''/w'', transcribe = (\<lambda>p l. \<lparr>segments = [], language = l\<rparr>)\<rparr>"
  let ?st = "\<lparr>files = [ascii ''/w/a.wav'' \<mapsto> Bytes []], stdout = [], calls = []\<rparr>"
  let ?r = "\<lparr>segments = [], language = None\<rparr>"
  have a: "ascii ''mp3'' \<notin> set formats" by (rule mp3_unsupported)
  have b: "\<not> truthy None \<and> ascii ''out.mp3'' \<noteq> [] \<and>
      extension (Some (ascii ''out.mp3'')) = Inr (ascii ''mp3'') \<and> ascii ''mp3'' \<notin> set formats"
    by (simp add: ext_mp3 mp3_unsupported) (simp add: ascii_def)
  have c: "ascii ''mp3'' \<noteq> [] \<and> ascii ''mp3'' \<notin> set formats"
    by (simp add: mp3_unsupported) (simp add: ascii_def)
  have d: "ascii ''a.wav'' \<noteq> [] \<and> path_exists ?st (path_join (cmd_cwd ?e) (ascii ''a.wav'')) \<and>
    \<not> path_exists ?st (path_join (cmd_cwd ?e) (ascii ''out.mp3''))"
    by (simp add: path_exists_def path_join_def ascii_def)
  note th = unsupported_format_fails[of "ascii ''mp3''" None ?r ?st None "ascii ''out.mp3''"
      "ascii ''mp3''" "Some (ascii ''/w/out.mp3'')" "ascii ''mp3''" None "ascii ''a.wav''" ?e None]
  note th' = unsupported_format_fails[of "ascii ''mp3''" None ?r ?st None "ascii ''out.mp3''"
      "ascii ''mp3''" None "ascii ''mp3''" None "ascii ''a.wav''" ?e None]
  from th' c have 3: "render OutputHandler_write (Some (ascii ''mp3'')) None None ?r ?st =
         (Raised UnsupportedFormatError, ?r, ?st)"
    by blast
  from th a b d 3 show ?thesis
    unfolding Let_def by blast
qed

end
